theory Spec2Isabelle
  imports Main "HOL-Library.Monad_Syntax"
begin

section \<open>Go library functions called by package chaos\<close>

text \<open>
  Package \<open>chaos\<close> and the exporter are thin layers over Go's \<open>strconv\<close>, \<open>time\<close>,
  \<open>encoding/json\<close> and \<open>net/http\<close>. What the package's results depend on is modelled
  here from the documented behaviour of those libraries, specialised to the arguments
  the package passes (the layout \<open>"2006-01-02 15:04:05"\<close>, the struct tags of
  \<open>BroadbandInfo\<close> and \<open>BroadbandQuota\<close>). Go's \<open>int\<close> is taken to be 64 bits wide.
\<close>

subsection \<open>Decimal digits, \<open>strconv.Itoa\<close>\<close>

definition isDigitChar :: "char \<Rightarrow> bool" where
  "isDigitChar c = (48 \<le> (of_char c :: nat) \<and> (of_char c :: nat) \<le> 57)"

definition digitVal :: "char \<Rightarrow> int" where
  "digitVal c = int (of_char c) - 48"

definition digitChar :: "nat \<Rightarrow> char" where
  "digitChar n = char_of (48 + n)"

fun decimal :: "nat \<Rightarrow> string" where
  "decimal n = (if n < 10 then [digitChar n] else decimal (n div 10) @ [digitChar (n mod 10)])"

declare decimal.simps [simp del]

definition Itoa :: "int \<Rightarrow> string" where
  "Itoa i = (if i < 0 then CHR ''-'' # decimal (nat (- i)) else decimal (nat i))"

subsection \<open>Package \<open>time\<close>: locations and the civil calendar\<close>

text \<open>
  A \<open>*time.Location\<close> is represented by its \<open>lookup\<close> method: for a Unix time it gives
  the offset east of UTC in force and the bounds \<open>[start, end)\<close> of the period in which
  that offset applies.
\<close>

type_synonym Location = "int \<Rightarrow> int \<times> int \<times> int"

definition alpha :: int where
  "alpha = - (2 ^ 63)"

definition omega :: int where
  "omega = 2 ^ 63 - 1"

definition utcLoc :: Location where
  "utcLoc = (\<lambda>sec. (0, alpha, omega))"

text \<open>
  \<open>time.Time\<close>: seconds since the Unix epoch, nanoseconds within the second, and the
  location the time is presented in.
\<close>

record Time =
  unixSec :: int
  nsec :: int
  loc :: Location

definition secondsPerDay :: int where
  "secondsPerDay = 86400"

definition unixToInternal :: int where
  "unixToInternal = (1969 * 365 + 1969 div 4 - 1969 div 100 + 1969 div 400) * secondsPerDay"

text \<open>The zero \<open>time.Time\<close>: January 1, year 1, 00:00:00 UTC.\<close>

definition zeroTime :: Time where
  "zeroTime = \<lparr>unixSec = - unixToInternal, nsec = 0, loc = utcLoc\<rparr>"

definition isLeap :: "int \<Rightarrow> bool" where
  "isLeap year = (year mod 4 = 0 \<and> (year mod 100 \<noteq> 0 \<or> year mod 400 = 0))"

definition daysBefore :: "int list" where
  "daysBefore = [0, 31, 59, 90, 120, 151, 181, 212, 243, 273, 304, 334, 365]"

definition daysIn :: "int \<Rightarrow> int \<Rightarrow> int" where
  "daysIn m year =
     (if m = 2 \<and> isLeap year then 29
      else daysBefore ! nat m - daysBefore ! nat (m - 1))"

text \<open>
  Go counts days from the year \<open>absoluteZeroYear = -292277022399\<close>, chosen congruent to
  1 modulo 400 so that its unsigned arithmetic never meets a negative number. The model
  counts from year 1 with the flooring \<open>div\<close> of HOL, which moves every day count by the
  same whole number of 400-year cycles and leaves the Unix time unchanged.
\<close>

definition daysSinceEpoch :: "int \<Rightarrow> int" where
  "daysSinceEpoch year =
     (let y = year - 1;
          n400 = y div 400;
          y1 = y - 400 * n400;
          n100 = y1 div 100;
          y2 = y1 - 100 * n100;
          n4 = y2 div 4;
          y3 = y2 - 4 * n4
      in 146097 * n400 + 36524 * n100 + 1461 * n4 + 365 * y3)"

definition norm :: "int \<Rightarrow> int \<Rightarrow> int \<Rightarrow> int \<times> int" where
  "norm hi lo base =
     (let (hi1, lo1) =
            (if lo < 0
             then (let n = (- lo - 1) div base + 1 in (hi - n, lo + n * base))
             else (hi, lo))
      in if lo1 \<ge> base
         then (let n = lo1 div base in (hi1 + n, lo1 - n * base))
         else (hi1, lo1))"

text \<open>
  \<open>time.Date\<close>. The location is asked for the offset at the civil time read as if it
  were UTC; when the time so corrected falls outside the period found, the offset is
  looked up again at the corrected time.
\<close>

definition Date :: "int \<Rightarrow> int \<Rightarrow> int \<Rightarrow> int \<Rightarrow> int \<Rightarrow> int \<Rightarrow> int \<Rightarrow> Location \<Rightarrow> Time" where
  "Date year month day hour minute sec ns l =
     (let (year1, m) = norm year (month - 1) 12;
          month1 = m + 1;
          (sec1, ns1) = norm sec ns 1000000000;
          (minute1, sec2) = norm minute sec1 60;
          (hour1, minute2) = norm hour minute1 60;
          (day1, hour2) = norm day hour1 24;
          d = daysSinceEpoch year1 + daysBefore ! nat (month1 - 1)
              + (if isLeap year1 \<and> month1 \<ge> 3 then 1 else 0)
              + (day1 - 1);
          absec = d * secondsPerDay + (hour2 * 3600 + minute2 * 60 + sec2);
          unix = absec - unixToInternal;
          (offset, start, end) = l unix;
          unix1 =
            (if offset \<noteq> 0
             then (let utc = unix - offset;
                       offset1 = (if utc < start \<or> utc \<ge> end then fst (l utc) else offset)
                   in unix - offset1)
             else unix)
      in \<lparr>unixSec = unix1, nsec = ns1, loc = l\<rparr>)"

text \<open>
  The two steps of \<open>Date\<close> by themselves, for stating what it does on fields that are in
  range (lemma \<open>Date_fields\<close>): the Unix time of the civil time read as UTC, and its
  correction by the offset of the location.
\<close>

definition civil :: "int \<Rightarrow> int \<Rightarrow> int \<Rightarrow> int \<Rightarrow> int \<Rightarrow> int \<Rightarrow> int" where
  "civil year month day hour minute sec =
     (daysSinceEpoch year + daysBefore ! nat (month - 1)
        + (if isLeap year \<and> month \<ge> 3 then 1 else 0) + (day - 1)) * secondsPerDay
     + (hour * 3600 + minute * 60 + sec) - unixToInternal"

definition zoned :: "Location \<Rightarrow> int \<Rightarrow> int" where
  "zoned l unix =
     (case l unix of
        (offset, start, end) \<Rightarrow>
          if offset \<noteq> 0
          then (let utc = unix - offset;
                    offset1 = (if utc < start \<or> utc \<ge> end then fst (l utc) else offset)
                in unix - offset1)
          else unix)"

text \<open>\<open>absDate\<close> and \<open>absClock\<close>: the civil date and the clock of a count of seconds.\<close>

definition absDate :: "int \<Rightarrow> int \<times> int \<times> int" where
  "absDate absec =
     (let d = absec div secondsPerDay;
          n400 = d div 146097;
          d1 = d - 146097 * n400;
          n100 = d1 div 36524;
          n100' = n100 - n100 div 4;
          d2 = d1 - 36524 * n100';
          n4 = d2 div 1461;
          d3 = d2 - 1461 * n4;
          n1 = d3 div 365;
          n1' = n1 - n1 div 4;
          yday = d3 - 365 * n1';
          year = 400 * n400 + 100 * n100' + 4 * n4 + n1' + 1
      in if isLeap year \<and> yday = 31 + 29 - 1 then (year, 2, 29)
         else (let day = (if isLeap year \<and> yday > 31 + 29 - 1 then yday - 1 else yday);
                   month = day div 31;
                   end = daysBefore ! nat (month + 1);
                   (month1, begin) =
                     (if day \<ge> end then (month + 1, end)
                      else (month, daysBefore ! nat month))
               in (year, month1 + 1, day - begin + 1)))"

definition absClock :: "int \<Rightarrow> int \<times> int \<times> int" where
  "absClock absec =
     (let sec = absec mod secondsPerDay;
          hour = sec div 3600;
          sec1 = sec - hour * 3600;
          minute = sec1 div 60
      in (hour, minute, sec1 - minute * 60))"

text \<open>
  The two halves of \<open>absDate\<close> by themselves, for stating what each does (lemma
  \<open>absDate_alt\<close>): the year and the day of the year of a count of days, and the month
  and the day of the month of a day of the year.
\<close>

definition yearDay :: "int \<Rightarrow> int \<times> int" where
  "yearDay d =
     (let n400 = d div 146097;
          d1 = d - 146097 * n400;
          n100 = d1 div 36524;
          n100' = n100 - n100 div 4;
          d2 = d1 - 36524 * n100';
          n4 = d2 div 1461;
          d3 = d2 - 1461 * n4;
          n1 = d3 div 365;
          n1' = n1 - n1 div 4
      in (400 * n400 + 100 * n100' + 4 * n4 + n1' + 1, d3 - 365 * n1'))"

definition monthDay :: "bool \<Rightarrow> int \<Rightarrow> int \<times> int" where
  "monthDay leap yday =
     (if leap \<and> yday = 31 + 29 - 1 then (2, 29)
      else (let day = (if leap \<and> yday > 31 + 29 - 1 then yday - 1 else yday);
                month = day div 31;
                end = daysBefore ! nat (month + 1);
                (month1, begin) =
                  (if day \<ge> end then (month + 1, end)
                   else (month, daysBefore ! nat month))
            in (month1 + 1, day - begin + 1)))"

subsection \<open>Package \<open>time\<close>: parsing and formatting with the layout \<open>"2006-01-02 15:04:05"\<close>\<close>

definition isDigit :: "string \<Rightarrow> nat \<Rightarrow> bool" where
  "isDigit s i = (i < length s \<and> isDigitChar (s ! i))"

text \<open>\<open>leadingInt\<close>: the digits at the front of a string, with its overflow guard.\<close>

fun leadingInt :: "int \<Rightarrow> string \<Rightarrow> (int \<times> string) option" where
  "leadingInt x [] = Some (x, [])"
| "leadingInt x (c # s) =
     (if \<not> isDigitChar c then Some (x, c # s)
      else if x > 2 ^ 63 div 10 then None
      else (let x1 = x * 10 + digitVal c
            in if x1 > 2 ^ 63 then None else leadingInt x1 s))"

definition atoi :: "string \<Rightarrow> int option" where
  "atoi s =
     (let neg = (s \<noteq> [] \<and> hd s = CHR ''-'');
          s1 = (if s \<noteq> [] \<and> (hd s = CHR ''-'' \<or> hd s = CHR ''+'') then tl s else s)
      in case leadingInt 0 s1 of
           None \<Rightarrow> None
         | Some (q, rem) \<Rightarrow> if rem \<noteq> [] then None else Some (if neg then - q else q))"

text \<open>\<open>getnum\<close> reads one or two digits; with \<open>fixed\<close> it insists on two.\<close>

definition getnum :: "string \<Rightarrow> bool \<Rightarrow> (int \<times> string) option" where
  "getnum s fixed =
     (if \<not> isDigit s 0 then None
      else if \<not> isDigit s 1 then (if fixed then None else Some (digitVal (s ! 0), drop 1 s))
      else Some (digitVal (s ! 0) * 10 + digitVal (s ! 1), drop 2 s))"

definition cutspace :: "string \<Rightarrow> string" where
  "cutspace s = dropWhile (\<lambda>c. c = CHR '' '') s"

text \<open>
  \<open>skip\<close> removes the layout's literal text from the front of the value. A space of the
  layout stands for any run of spaces in the value, the empty run included.
\<close>

function skip :: "string \<Rightarrow> string \<Rightarrow> string option" where
  "skip v [] = Some v"
| "skip v (p # ps) =
     (if p = CHR '' ''
      then (if v \<noteq> [] \<and> hd v \<noteq> CHR '' '' then None
            else skip (cutspace v) (cutspace (p # ps)))
      else if v = [] \<or> hd v \<noteq> p then None
      else skip (tl v) ps)"
  by pat_completeness auto
termination
  by (relation "measure (\<lambda>(v, p). length p)")
     (auto simp: cutspace_def intro: le_imp_less_Suc length_dropWhile_le)

definition commaOrPeriod :: "char \<Rightarrow> bool" where
  "commaOrPeriod c = (c = CHR ''.'' \<or> c = CHR '','')"

text \<open>
  \<open>parseNanoseconds value nbytes\<close>: \<open>value\<close> starts with the separator; at most nine
  digits after it count.
\<close>

definition parseNanoseconds :: "string \<Rightarrow> nat \<Rightarrow> int option" where
  "parseNanoseconds v nbytes =
     (if v = [] \<or> \<not> commaOrPeriod (hd v) then None
      else (let n = (if nbytes > 10 then 10 else nbytes);
                v1 = (if nbytes > 10 then take 10 v else v)
            in case atoi (take (n - 1) (drop 1 v1)) of
                 None \<Rightarrow> None
               | Some ns \<Rightarrow> if ns < 0 then None else Some (ns * 10 ^ (10 - n))))"

text \<open>
  The fields of a value under the layout \<open>"2006-01-02 15:04:05"\<close>, in the order in
  which \<open>time.parse\<close> meets the layout's elements: \<open>2006\<close> (four digits), \<open>01\<close> and
  \<open>02\<close> (two digits), \<open>15\<close> (one or two digits), \<open>04\<close> and \<open>05\<close> (two digits). After
  the seconds a fraction is accepted although the layout has none. Whatever error the
  library reports is \<open>None\<close>.
\<close>

definition parseLayout :: "string \<Rightarrow> (int \<times> int \<times> int \<times> int \<times> int \<times> int \<times> int) option" where
  "parseLayout value0 =
     do {
       (year, v1) \<leftarrow>
         (if length value0 < 4 \<or> \<not> isDigit value0 0 then None
          else map_option (\<lambda>y. (y, drop 4 value0)) (atoi (take 4 value0)));
       v2 \<leftarrow> skip v1 ''-'';
       (month, v3) \<leftarrow> getnum v2 True;
       _ \<leftarrow> (if month \<le> 0 \<or> 12 < month then None else Some ());
       v4 \<leftarrow> skip v3 ''-'';
       (day, v5) \<leftarrow> getnum v4 True;
       v6 \<leftarrow> skip v5 '' '';
       (hour, v7) \<leftarrow> getnum v6 False;
       _ \<leftarrow> (if hour < 0 \<or> 24 \<le> hour then None else Some ());
       v8 \<leftarrow> skip v7 '':'';
       (minute, v9) \<leftarrow> getnum v8 True;
       _ \<leftarrow> (if minute < 0 \<or> 60 \<le> minute then None else Some ());
       v10 \<leftarrow> skip v9 '':'';
       (sec, v11) \<leftarrow> getnum v10 True;
       _ \<leftarrow> (if sec < 0 \<or> 60 \<le> sec then None else Some ());
       (ns, v12) \<leftarrow>
         (if length v11 \<ge> 2 \<and> commaOrPeriod (v11 ! 0) \<and> isDigit v11 1
          then (let n = 2 + length (takeWhile isDigitChar (drop 2 v11))
                in map_option (\<lambda>ns. (ns, drop n v11)) (parseNanoseconds v11 n))
          else Some (0, v11));
       _ \<leftarrow> (if v12 \<noteq> [] then None else Some ());
       _ \<leftarrow> (if day < 1 \<or> day > daysIn month year then None else Some ());
       Some (year, month, day, hour, minute, sec, ns)
     }"

datatype ParseError = ParseError string

definition ParseInLocation :: "string \<Rightarrow> Location \<Rightarrow> ParseError + Time" where
  "ParseInLocation s l =
     (case parseLayout s of
        None \<Rightarrow> Inl (ParseError s)
      | Some (year, month, day, hour, minute, sec, ns) \<Rightarrow>
          Inr (Date year month day hour minute sec ns l))"

text \<open>\<open>appendInt\<close>: a number in decimal, padded with zeros to a width.\<close>

definition appendInt :: "int \<Rightarrow> nat \<Rightarrow> string" where
  "appendInt x width =
     (let ds = decimal (nat \<bar>x\<bar>)
      in (if x < 0 then ''-'' else '''') @ replicate (width - length ds) CHR ''0'' @ ds)"

text \<open>\<open>t.Format("2006-01-02 15:04:05")\<close>, in the location of \<open>t\<close>.\<close>

definition Format :: "Time \<Rightarrow> string" where
  "Format t =
     (let (offset, start, end) = loc t (unixSec t);
          absec = unixSec t + offset + unixToInternal;
          (year, month, day) = absDate absec;
          (hour, minute, sec) = absClock absec
      in appendInt year 4 @ ''-'' @ appendInt month 2 @ ''-'' @ appendInt day 2 @ '' ''
         @ appendInt hour 2 @ '':'' @ appendInt minute 2 @ '':'' @ appendInt sec 2)"

text \<open>
  What \<open>time.LoadLocation\<close> and \<open>time.Local\<close> give depends on the machine: the time zone
  database it can read and the zone it is set to.
\<close>

record Zones =
  zoneinfo :: "string \<Rightarrow> Location option"
  Local :: Location

definition LoadLocation :: "Zones \<Rightarrow> string \<Rightarrow> Location option" where
  "LoadLocation z name =
     (if name = '''' \<or> name = ''UTC'' then Some utcLoc
      else if name = ''Local'' then Some (Local z)
      else zoneinfo z name)"

subsection \<open>\<open>strings.Trim\<close>, \<open>strconv.ParseInt\<close>\<close>

definition Trim :: "string \<Rightarrow> char \<Rightarrow> string" where
  "Trim s c = rev (dropWhile (\<lambda>x. x = c) (rev (dropWhile (\<lambda>x. x = c) s)))"

definition decimalValue :: "string \<Rightarrow> int" where
  "decimalValue s = foldl (\<lambda>a c. 10 * a + digitVal c) 0 s"

text \<open>\<open>strconv.ParseInt(s, 10, 64)\<close>: an optional sign, digits, a value that fits 64 bits.\<close>

definition ParseInt :: "string \<Rightarrow> int option" where
  "ParseInt s =
     (if s = [] then None
      else (let neg = (hd s = CHR ''-'');
                s1 = (if hd s = CHR ''+'' \<or> hd s = CHR ''-'' then tl s else s)
            in if s1 = [] \<or> \<not> list_all isDigitChar s1 then None
               else (let un = decimalValue s1
                     in if \<not> neg \<and> un \<ge> 2 ^ 63 then None
                        else if neg \<and> un > 2 ^ 63 then None
                        else Some (if neg then - un else un))))"

subsection \<open>Package \<open>encoding/json\<close>\<close>

text \<open>
  A response body is represented by its JSON syntax tree. A number carries its literal
  text. A string carries the bytes between its quotes as they stand in the body
  (\<open>jsonRaw\<close>, escapes not interpreted) and the string they denote (\<open>jsonStr\<close>): a field
  of string type receives the second, a type with its own \<open>UnmarshalJSON\<close> is handed the
  first. The keys of an object are the strings they denote, in the order of the text.
\<close>

datatype JSON =
    JNull
  | JBool bool
  | JNumber string
  | JString (jsonRaw: string) (jsonStr: string)
  | JArray "JSON list"
  | JObject "(string \<times> JSON) list"

text \<open>
  A key selects the struct field whose JSON name it equals, or else equals under
  Unicode simple case folding. For the lower-case ASCII names of this package that is:
  after lowering the letters A-Z of the key and replacing the long s (U+017F, in UTF-8
  the bytes C5 BF) by \<open>s\<close> and the Kelvin sign (U+212A, bytes E2 84 AA) by \<open>k\<close>.
\<close>

fun foldKey :: "string \<Rightarrow> string" where
  "foldKey [] = []"
| "foldKey (c # cs) =
     (let n = (of_char c :: nat)
      in if 65 \<le> n \<and> n \<le> 90 then char_of (n + 32) # foldKey cs
         else if n = 197 \<and> cs \<noteq> [] \<and> (of_char (hd cs) :: nat) = 191
              then CHR ''s'' # foldKey (tl cs)
         else if n = 226 \<and> length cs \<ge> 2 \<and> (of_char (cs ! 0) :: nat) = 132
                 \<and> (of_char (cs ! 1) :: nat) = 170
              then CHR ''k'' # foldKey (drop 2 cs)
         else c # foldKey cs)"

definition isField :: "string \<Rightarrow> string \<Rightarrow> bool" where
  "isField name key = (key = name \<or> foldKey key = name)"

text \<open>
  Each decoder takes the JSON value and the present content of the variable it decodes
  into, and gives the new content, or \<open>None\<close> when \<open>json.Unmarshal\<close> ends with an error
  (which of several errors it reports is not modelled). The literal \<open>null\<close> leaves a
  string, an integer or a struct as it is.
\<close>

definition storeString :: "JSON \<Rightarrow> string \<Rightarrow> string option" where
  "storeString v cur =
     (case v of JNull \<Rightarrow> Some cur | JString raw s \<Rightarrow> Some s | _ \<Rightarrow> None)"

text \<open>An \<open>int\<close> field without options takes a JSON number that \<open>ParseInt\<close> accepts.\<close>

definition storeInt :: "JSON \<Rightarrow> int \<Rightarrow> int option" where
  "storeInt v cur =
     (case v of
        JNull \<Rightarrow> Some cur
      | JNumber lit \<Rightarrow>
          (if lit = [] \<or> (hd lit \<noteq> CHR ''-'' \<and> \<not> isDigitChar (hd lit)) then None
           else ParseInt lit)
      | _ \<Rightarrow> None)"

text \<open>
  An \<open>int\<close> field tagged \<open>,string\<close> takes a JSON string whose content is a number that
  \<open>ParseInt\<close> accepts, or is the word \<open>null\<close>; a bare number is refused.
\<close>

definition storeQuotedInt :: "JSON \<Rightarrow> int \<Rightarrow> int option" where
  "storeQuotedInt v cur =
     (case v of
        JNull \<Rightarrow> Some cur
      | JString raw s \<Rightarrow>
          (if s = [] then None
           else if hd s = CHR ''n'' then (if s = ''null'' then Some cur else None)
           else if hd s \<noteq> CHR ''-'' \<and> \<not> isDigitChar (hd s) then None
           else ParseInt s)
      | _ \<Rightarrow> None)"

text \<open>
  A slice takes \<open>null\<close> (and becomes nil) or an array. Element \<open>i\<close> of the array is
  decoded into element \<open>i\<close> of the slice when the slice has one already (only after an
  earlier occurrence of the same key), into a zero element otherwise.
\<close>

fun storeElems :: "(JSON \<Rightarrow> 'a \<Rightarrow> 'a option) \<Rightarrow> 'a \<Rightarrow> JSON list \<Rightarrow> 'a list \<Rightarrow> 'a list option" where
  "storeElems dec z [] cur = Some []"
| "storeElems dec z (e # es) cur =
     (case dec e (case cur of [] \<Rightarrow> z | c # _ \<Rightarrow> c) of
        None \<Rightarrow> None
      | Some x \<Rightarrow> map_option ((#) x) (storeElems dec z es (tl cur)))"

definition storeSlice :: "(JSON \<Rightarrow> 'a \<Rightarrow> 'a option) \<Rightarrow> 'a \<Rightarrow> JSON \<Rightarrow> 'a list \<Rightarrow> 'a list option" where
  "storeSlice dec z v cur =
     (case v of JNull \<Rightarrow> Some [] | JArray es \<Rightarrow> storeElems dec z es cur | _ \<Rightarrow> None)"

text \<open>
  A struct takes \<open>null\<close> or an object, whose members are stored one after the other,
  each by \<open>field\<close> into the field its key selects; a key that selects none is skipped.
\<close>

fun storeMembers :: "(string \<Rightarrow> JSON \<Rightarrow> 'a \<Rightarrow> 'a option) \<Rightarrow> (string \<times> JSON) list \<Rightarrow> 'a \<Rightarrow> 'a option" where
  "storeMembers field [] cur = Some cur"
| "storeMembers field ((k, v) # ms) cur =
     (case field k v cur of None \<Rightarrow> None | Some cur1 \<Rightarrow> storeMembers field ms cur1)"

definition storeStruct :: "(string \<Rightarrow> JSON \<Rightarrow> 'a \<Rightarrow> 'a option) \<Rightarrow> JSON \<Rightarrow> 'a \<Rightarrow> 'a option" where
  "storeStruct field v cur =
     (case v of JNull \<Rightarrow> Some cur | JObject ms \<Rightarrow> storeMembers field ms cur | _ \<Rightarrow> None)"

section \<open>Package chaos\<close>

subsection \<open>Timestamps: \<open>chaosTime.UnmarshalJSON\<close>\<close>

text \<open>
  \<open>UnmarshalJSON\<close> strips the quotes, takes the location \<open>Europe/London\<close>, or
  \<open>time.Local\<close> when that cannot be loaded, and parses in it with the layout
  \<open>"2006-01-02 15:04:05"\<close>, to which \<open>ParseInLocation\<close> is specialised.
\<close>

definition UnmarshalJSON :: "Zones \<Rightarrow> string \<Rightarrow> ParseError + Time" where
  "UnmarshalJSON z b =
     (let s = Trim b (CHR 0x22);
          l = (case LoadLocation z ''Europe/London'' of None \<Rightarrow> Local z | Some l \<Rightarrow> l)
      in ParseInLocation s l)"

text \<open>
  \<open>encoding/json\<close> hands \<open>UnmarshalJSON\<close> the text of the value, whatever its kind. The
  text of an array or object starts with a bracket, which no value of the layout does:
  the call fails whatever follows, and the model does not carry that text.
\<close>

definition quoted :: "string \<Rightarrow> string" where
  "quoted s = CHR 0x22 # s @ [CHR 0x22]"

definition storeChaosTime :: "Zones \<Rightarrow> JSON \<Rightarrow> Time \<Rightarrow> Time option" where
  "storeChaosTime z v cur =
     (let text =
            (case v of
               JNull \<Rightarrow> Some ''null''
             | JBool b \<Rightarrow> Some (if b then ''true'' else ''false'')
             | JNumber lit \<Rightarrow> Some lit
             | JString raw s \<Rightarrow> Some (quoted raw)
             | JArray es \<Rightarrow> None
             | JObject ms \<Rightarrow> None)
      in case text of
           None \<Rightarrow> None
         | Some b \<Rightarrow> (case UnmarshalJSON z b of Inl e \<Rightarrow> None | Inr t \<Rightarrow> Some t))"

subsection \<open>The records and their JSON tags\<close>

record BroadbandInfo =
  ID :: int
  Login :: string
  Postcode :: string
  TXRate :: int
  RXRate :: int
  TXRateAdjusted :: int
  QuotaMonthly :: int
  QuotaRemaining :: int
  QuotaTimestamp :: Time

definition zeroBroadbandInfo :: BroadbandInfo where
  "zeroBroadbandInfo =
     \<lparr>ID = 0, Login = '''', Postcode = '''', TXRate = 0, RXRate = 0, TXRateAdjusted = 0,
      QuotaMonthly = 0, QuotaRemaining = 0, QuotaTimestamp = zeroTime\<rparr>"

text \<open>
  The tags of \<open>BroadbandInfo\<close>: every integer is \<open>,string\<close>, the timestamp is a
  \<open>chaosTime\<close>.
\<close>

definition infoField :: "Zones \<Rightarrow> string \<Rightarrow> JSON \<Rightarrow> BroadbandInfo \<Rightarrow> BroadbandInfo option" where
  "infoField z k v r =
     (if isField ''id'' k then map_option (\<lambda>x. r\<lparr>ID := x\<rparr>) (storeQuotedInt v (ID r))
      else if isField ''login'' k then map_option (\<lambda>x. r\<lparr>Login := x\<rparr>) (storeString v (Login r))
      else if isField ''postcode'' k
        then map_option (\<lambda>x. r\<lparr>Postcode := x\<rparr>) (storeString v (Postcode r))
      else if isField ''tx_rate'' k
        then map_option (\<lambda>x. r\<lparr>TXRate := x\<rparr>) (storeQuotedInt v (TXRate r))
      else if isField ''rx_rate'' k
        then map_option (\<lambda>x. r\<lparr>RXRate := x\<rparr>) (storeQuotedInt v (RXRate r))
      else if isField ''tx_rate_adjusted'' k
        then map_option (\<lambda>x. r\<lparr>TXRateAdjusted := x\<rparr>) (storeQuotedInt v (TXRateAdjusted r))
      else if isField ''quota_monthly'' k
        then map_option (\<lambda>x. r\<lparr>QuotaMonthly := x\<rparr>) (storeQuotedInt v (QuotaMonthly r))
      else if isField ''quota_remaining'' k
        then map_option (\<lambda>x. r\<lparr>QuotaRemaining := x\<rparr>) (storeQuotedInt v (QuotaRemaining r))
      else if isField ''quota_timestamp'' k
        then map_option (\<lambda>x. r\<lparr>QuotaTimestamp := x\<rparr>) (storeChaosTime z v (QuotaTimestamp r))
      else Some r)"

text \<open>
  \<open>BroadbandQuota\<close> has the fields \<open>ID\<close>, \<open>QuotaMonthly\<close>, \<open>QuotaRemaining\<close> and
  \<open>QuotaTimestamp\<close>; a record of HOL cannot share field names with another, so they
  carry the prefix \<open>quota\<close> here.
\<close>

record BroadbandQuota =
  quotaID :: int
  quotaQuotaMonthly :: int
  quotaQuotaRemaining :: int
  quotaQuotaTimestamp :: Time

definition zeroBroadbandQuota :: BroadbandQuota where
  "zeroBroadbandQuota =
     \<lparr>quotaID = 0, quotaQuotaMonthly = 0, quotaQuotaRemaining = 0,
      quotaQuotaTimestamp = zeroTime\<rparr>"

text \<open>
  The tags of \<open>BroadbandQuota\<close>: \<open>id\<close> and \<open>quota_remaining\<close> are \<open>,string\<close>,
  \<open>quota_monthly\<close> has no option, and the option \<open>,string\<close> of \<open>quota_timestamp\<close> is
  without effect on a struct type.
\<close>

definition quotaField :: "Zones \<Rightarrow> string \<Rightarrow> JSON \<Rightarrow> BroadbandQuota \<Rightarrow> BroadbandQuota option" where
  "quotaField z k v r =
     (if isField ''id'' k
        then map_option (\<lambda>x. r\<lparr>quotaID := x\<rparr>) (storeQuotedInt v (quotaID r))
      else if isField ''quota_monthly'' k
        then map_option (\<lambda>x. r\<lparr>quotaQuotaMonthly := x\<rparr>) (storeInt v (quotaQuotaMonthly r))
      else if isField ''quota_remaining'' k
        then map_option (\<lambda>x. r\<lparr>quotaQuotaRemaining := x\<rparr>)
               (storeQuotedInt v (quotaQuotaRemaining r))
      else if isField ''quota_timestamp'' k
        then map_option (\<lambda>x. r\<lparr>quotaQuotaTimestamp := x\<rparr>)
               (storeChaosTime z v (quotaQuotaTimestamp r))
      else Some r)"

text \<open>
  The anonymous struct both calls decode into: the records under the key \<open>info\<close>
  (field \<open>Info\<close>) or \<open>quota\<close> (field \<open>Quota\<close>), and \<open>error\<close> (field \<open>Error\<close>).
\<close>

record 'a Envelope =
  Records :: "'a list"
  Error :: string

definition zeroEnvelope :: "'a Envelope" where
  "zeroEnvelope = \<lparr>Records = [], Error = ''''\<rparr>"

definition envelopeField ::
  "string \<Rightarrow> (JSON \<Rightarrow> 'a \<Rightarrow> 'a option) \<Rightarrow> 'a \<Rightarrow> string \<Rightarrow> JSON \<Rightarrow> 'a Envelope \<Rightarrow> 'a Envelope option" where
  "envelopeField name dec z k v r =
     (if isField name k
        then map_option (\<lambda>x. r\<lparr>Records := x\<rparr>) (storeSlice dec z v (Records r))
      else if isField ''error'' k
        then map_option (\<lambda>x. r\<lparr>Error := x\<rparr>) (storeString v (Error r))
      else Some r)"

text \<open>
  \<open>json.Unmarshal(resp, &r)\<close> for a fresh \<open>r\<close>. The body is \<open>None\<close> when its bytes are
  not one JSON text (a syntax error).
\<close>

definition Unmarshal ::
  "string \<Rightarrow> (JSON \<Rightarrow> 'a \<Rightarrow> 'a option) \<Rightarrow> 'a \<Rightarrow> JSON option \<Rightarrow> 'a Envelope option" where
  "Unmarshal name dec z body =
     (case body of
        None \<Rightarrow> None
      | Some v \<Rightarrow> storeStruct (envelopeField name dec z) v zeroEnvelope)"

subsection \<open>Credentials and requests\<close>

record Auth =
  AccountNumber :: string
  AccountPassword :: string
  ControlLogin :: string
  ControlPassword :: string

text \<open>\<open>Auth.form\<close>: the non-empty credentials, as \<open>url.Values\<close> lists them (by key).\<close>

definition form :: "Auth \<Rightarrow> (string \<times> string) list" where
  "form a =
     (if AccountNumber a \<noteq> '''' then [(''account_number'', AccountNumber a)] else [])
     @ (if AccountPassword a \<noteq> '''' then [(''account_password'', AccountPassword a)] else [])
     @ (if ControlLogin a \<noteq> '''' then [(''control_login'', ControlLogin a)] else [])
     @ (if ControlPassword a \<noteq> '''' then [(''control_password'', ControlPassword a)] else [])"

record API =
  Endpoint :: string
  login :: "(string \<times> string) list"

definition defaultEndpoint :: string where
  "defaultEndpoint = ''https://chaos2.aa.net.uk''"

definition New :: "Auth \<Rightarrow> API" where
  "New auth = \<lparr>Endpoint = defaultEndpoint, login = form auth\<rparr>"

text \<open>
  The network is a function from the request to what \<open>net/http\<close> answers: a failure of
  \<open>http.NewRequest\<close> or of \<open>client.Do\<close> (the timeout of ten seconds included), or a
  response, with its status code and with what \<open>ioutil.ReadAll\<close> makes of its body.
  The request is a POST with the content type of a form.
\<close>

record Request =
  url :: string
  body :: "(string \<times> string) list"

datatype ReadAll = ReadFailed string | Bytes "JSON option"

datatype Reply = NewRequestFailed string | DoFailed string | Response int ReadAll

type_synonym Network = "Request \<Rightarrow> Reply"

text \<open>
  The errors of the package, by the expression that builds them. The specification
  calls them TransportError (\<open>LibError\<close>, \<open>ReadBodyError\<close>), UpstreamStatusError
  (\<open>BadResponseCode\<close>), DecodeError (\<open>InfoDecodeError\<close>, \<open>QuotaDecodeError\<close>) and
  UpstreamReportedError (\<open>ErrorsNew\<close>).
\<close>

datatype error =
    LibError string
  | ReadBodyError string
  | BadResponseCode int
  | InfoDecodeError
  | QuotaDecodeError
  | ErrorsNew string

text \<open>
  The message of an error, where the package decides it: \<open>LibError\<close> and
  \<open>ReadBodyError\<close> carry the message of the library's error, the message of a decoding
  error is \<open>encoding/json\<close>'s and not modelled.
\<close>

definition message :: "error \<Rightarrow> string option" where
  "message e =
     (case e of
        LibError m \<Rightarrow> Some m
      | ReadBodyError m \<Rightarrow> Some (''error reading response body: '' @ m)
      | BadResponseCode code \<Rightarrow> Some (''bad response code: '' @ Itoa code)
      | InfoDecodeError \<Rightarrow> None
      | QuotaDecodeError \<Rightarrow> None
      | ErrorsNew m \<Rightarrow> Some m)"

definition StatusOK :: int where
  "StatusOK = 200"

text \<open>The request \<open>makeRequest\<close> builds: the endpoint and the path, the credentials.\<close>

definition request :: "API \<Rightarrow> string \<Rightarrow> Request" where
  "request api path = \<lparr>url = Endpoint api @ path, body = login api\<rparr>"

definition makeRequest :: "API \<Rightarrow> Network \<Rightarrow> string \<Rightarrow> error + JSON option" where
  "makeRequest api net path =
     (case net (request api path) of
        NewRequestFailed e \<Rightarrow> Inl (LibError e)
      | DoFailed e \<Rightarrow> Inl (LibError e)
      | Response StatusCode rd \<Rightarrow>
          (case rd of
             ReadFailed e \<Rightarrow> Inl (ReadBodyError e)
           | Bytes b \<Rightarrow>
               if StatusCode \<noteq> StatusOK then Inl (BadResponseCode StatusCode) else Inr b))"

subsection \<open>\<open>API.BroadbandInfo\<close> and \<open>API.BroadbandQuota\<close>\<close>

definition API_BroadbandInfo :: "Zones \<Rightarrow> API \<Rightarrow> Network \<Rightarrow> error + BroadbandInfo list" where
  "API_BroadbandInfo z api net =
     (case makeRequest api net ''/broadband/info'' of
        Inl e \<Rightarrow> Inl e
      | Inr resp \<Rightarrow>
          (case Unmarshal ''info'' (storeStruct (infoField z)) zeroBroadbandInfo resp of
             None \<Rightarrow> Inl InfoDecodeError
           | Some r \<Rightarrow> if Error r \<noteq> '''' then Inl (ErrorsNew (Error r)) else Inr (Records r)))"

definition API_BroadbandQuota :: "Zones \<Rightarrow> API \<Rightarrow> Network \<Rightarrow> error + BroadbandQuota list" where
  "API_BroadbandQuota z api net =
     (case makeRequest api net ''/broadband/quota'' of
        Inl e \<Rightarrow> Inl e
      | Inr resp \<Rightarrow>
          (case Unmarshal ''quota'' (storeStruct (quotaField z)) zeroBroadbandQuota resp of
             None \<Rightarrow> Inl QuotaDecodeError
           | Some r \<Rightarrow> if Error r \<noteq> '''' then Inl (ErrorsNew (Error r)) else Inr (Records r)))"

section \<open>The exporter (\<open>cmd/aaisp_exporter\<close>)\<close>

subsection \<open>Metrics\<close>

record Desc =
  fqName :: string
  helpText :: string
  variableLabels :: "string list"

definition NewDesc :: "string \<Rightarrow> string \<Rightarrow> string list \<Rightarrow> Desc" where
  "NewDesc name h labels = \<lparr>fqName = name, helpText = h, variableLabels = labels\<rparr>"

definition broadbandQuotaRemainingDesc :: Desc where
  "broadbandQuotaRemainingDesc =
     NewDesc ''aaisp_broadband_quota_remaining'' ''Quota remaining in bytes'' [''line_id'']"

definition broadbandQuotaTotalDesc :: Desc where
  "broadbandQuotaTotalDesc =
     NewDesc ''aaisp_broadband_quota_total'' ''Quota total in bytes'' [''line_id'']"

definition broadbandTXRateDesc :: Desc where
  "broadbandTXRateDesc =
     NewDesc ''aaisp_broadband_tx_rate'' ''Line transmit rate in bits per second'' [''line_id'']"

definition broadbandRXRateDesc :: Desc where
  "broadbandRXRateDesc =
     NewDesc ''aaisp_broadband_rx_rate'' ''Line receive rate in bits per second'' [''line_id'']"

datatype ValueType = CounterValue | GaugeValue | UntypedValue

text \<open>
  A constant metric. \<open>sample\<close> is the integer that the exporter converts with
  \<open>float64(...)\<close>; the conversion itself is not modelled.
\<close>

record Metric =
  desc :: Desc
  valueType :: ValueType
  sample :: int
  labelValues :: "string list"

definition MustNewConstMetric :: "Desc \<Rightarrow> ValueType \<Rightarrow> int \<Rightarrow> string list \<Rightarrow> Metric" where
  "MustNewConstMetric d vt v labels =
     \<lparr>desc = d, valueType = vt, sample = v, labelValues = labels\<rparr>"

subsection \<open>Logging and the state of the process\<close>

text \<open>
  The levels of zerolog. An event is recorded as the logger is handed it, whatever level
  the logger is set to let through; an event of level \<open>FatalLevel\<close> ends the process
  with status 1, one of level \<open>PanicLevel\<close> panics.
\<close>

datatype Level = DebugLevel | InfoLevel | WarnLevel | ErrorLevel | FatalLevel | PanicLevel

record LogEvent =
  level :: Level
  err :: "error option"
  msg :: string

definition endsProcess :: "LogEvent \<Rightarrow> bool" where
  "endsProcess e = (level e = FatalLevel \<or> level e = PanicLevel)"

text \<open>
  What a scrape leaves behind in the process: the gauge \<open>aaisp_scrape_success\<close> and the
  events logged.
\<close>

record Exporter =
  scrapeSuccessGauge :: int
  logged :: "LogEvent list"

subsection \<open>\<open>broadbandCollector.Collect\<close>\<close>

text \<open>The loop of \<open>Collect\<close>: the metrics sent on the channel, in the order sent.\<close>

fun sendLines :: "BroadbandInfo list \<Rightarrow> Metric list" where
  "sendLines [] = []"
| "sendLines (line # lines) =
     [MustNewConstMetric broadbandQuotaRemainingDesc GaugeValue (QuotaRemaining line)
        [Itoa (ID line)],
      MustNewConstMetric broadbandQuotaTotalDesc CounterValue (QuotaMonthly line)
        [Itoa (ID line)],
      MustNewConstMetric broadbandTXRateDesc GaugeValue (TXRate line) [Itoa (ID line)],
      MustNewConstMetric broadbandRXRateDesc GaugeValue (RXRate line) [Itoa (ID line)]]
     @ sendLines lines"

text \<open>
  \<open>Collect\<close>, for the collector of an \<open>API\<close>: the state after the call and the metrics
  sent on the channel.
\<close>

definition broadbandCollector_Collect :: "Zones \<Rightarrow> API \<Rightarrow> Network \<Rightarrow> Exporter \<Rightarrow> Exporter \<times> Metric list" where
  "broadbandCollector_Collect z api net st =
     (case API_BroadbandInfo z api net of
        Inl e \<Rightarrow>
          (st\<lparr>logged := logged st
                  @ [\<lparr>level = DebugLevel, err = Some e, msg = ''error getting broadband info''\<rparr>],
              scrapeSuccessGauge := 0\<rparr>, [])
      | Inr lines \<Rightarrow> (st\<lparr>scrapeSuccessGauge := 1\<rparr>, sendLines lines))"

subsection \<open>\<open>setupLogger\<close>\<close>






subsection \<open>\<open>main\<close>\<close>







section \<open>The documented shape of the bodies\<close>

text \<open>
  The bodies the upstream API is documented to send, as JSON syntax trees: an object
  with the array \<open>info\<close> (or \<open>quota\<close>) and the string \<open>error\<close>, here empty; each element
  of the array an object with the documented members, the integers as numeric strings
  (\<open>strconv.Itoa\<close> of a value that fits 64 bits), the timestamp a string. A record goes
  with the text of its timestamp. For the quota envelope the form of \<open>quota_monthly\<close> is
  a parameter: a numeric string as documented, or a bare number.
\<close>

text \<open>A JSON string without escapes: its text is the string it denotes.\<close>

definition jstr :: "string \<Rightarrow> JSON" where
  "jstr s = JString s s"

definition int64 :: "int \<Rightarrow> bool" where
  "int64 n = (- (2 ^ 63) \<le> n \<and> n < 2 ^ 63)"




definition quotaJSON :: "(int \<Rightarrow> JSON) \<Rightarrow> BroadbandQuota \<Rightarrow> string \<Rightarrow> JSON" where
  "quotaJSON monthly r ts =
     JObject
       [(''id'', jstr (Itoa (quotaID r))),
        (''quota_monthly'', monthly (quotaQuotaMonthly r)),
        (''quota_remaining'', jstr (Itoa (quotaQuotaRemaining r))),
        (''quota_timestamp'', jstr ts)]"

definition quotaEnvelope :: "(int \<Rightarrow> JSON) \<Rightarrow> (BroadbandQuota \<times> string) list \<Rightarrow> JSON" where
  "quotaEnvelope monthly lines =
     JObject [(''quota'', JArray (map (\<lambda>(r, ts). quotaJSON monthly r ts) lines)),
              (''error'', jstr '''')]"

definition wireQuota :: "Zones \<Rightarrow> BroadbandQuota \<times> string \<Rightarrow> bool" where
  "wireQuota z = (\<lambda>(r, ts).
     int64 (quotaID r) \<and> int64 (quotaQuotaMonthly r) \<and> int64 (quotaQuotaRemaining r)
     \<and> UnmarshalJSON z (quoted ts) = Inr (quotaQuotaTimestamp r))"

text \<open>
  A timestamp written exactly as the layout \<open>"2006-01-02 15:04:05"\<close> is: nineteen
  characters, digits but for the two hyphens, the space and the two colons.
\<close>

definition layoutShaped :: "string \<Rightarrow> bool" where
  "layoutShaped s =
     (length s = 19
      \<and> list_all (\<lambda>i. isDigitChar (s ! i)) [0, 1, 2, 3, 5, 6, 8, 9, 11, 12, 14, 15, 17, 18]
      \<and> s ! 4 = CHR ''-'' \<and> s ! 7 = CHR ''-'' \<and> s ! 10 = CHR '' ''
      \<and> s ! 13 = CHR '':'' \<and> s ! 16 = CHR '':'')"

section \<open>Example inputs\<close>

text \<open>
  The United Kingdom's time from 30 October 2022, 01:00 UTC: Greenwich Mean Time, British
  Summer Time from 26 March 2023, 01:00 UTC, and Greenwich Mean Time again from
  29 October 2023, 01:00 UTC. A location that agrees with it over these periods is what
  the time zone database of a machine holds under \<open>Europe/London\<close>.
\<close>

definition britishTime2023 :: "Location \<Rightarrow> bool" where
  "britishTime2023 l =
     ((\<forall>u. 1667091600 \<le> u \<and> u < 1679792400 \<longrightarrow> l u = (0, 1667091600, 1679792400))
      \<and> (\<forall>u. 1679792400 \<le> u \<and> u < 1698541200 \<longrightarrow> l u = (3600, 1679792400, 1698541200)))"

definition london2023 :: Location where
  "london2023 u =
     (if u < 1667091600 then (3600, 1648342800, 1667091600)
      else if u < 1679792400 then (0, 1667091600, 1679792400)
      else if u < 1698541200 then (3600, 1679792400, 1698541200)
      else (0, 1698541200, omega))"

text \<open>A machine with that zone in its database, and one without a database, set to UTC.\<close>

definition londonZones :: Zones where
  "londonZones =
     \<lparr>zoneinfo = (\<lambda>name. if name = ''Europe/London'' then Some london2023 else None),
      Local = utcLoc\<rparr>"

definition noZones :: Zones where
  "noZones = \<lparr>zoneinfo = (\<lambda>name. None), Local = utcLoc\<rparr>"

definition exampleAPI :: API where
  "exampleAPI =
     New \<lparr>AccountNumber = '''', AccountPassword = '''',
          ControlLogin = ''login'', ControlPassword = ''secret''\<rparr>"

definition exampleState :: Exporter where
  "exampleState = \<lparr>scrapeSuccessGauge = 0, logged = []\<rparr>"



text \<open>A network that answers every request with the same status and body.\<close>

definition answer :: "int \<Rightarrow> JSON \<Rightarrow> Network" where
  "answer code v = (\<lambda>r. Response code (Bytes (Some v)))"

text \<open>
  A body with three lines, two of them under the same identifier, and the records it
  decodes to on the machine without a database.
\<close>

definition exampleBody :: JSON where
  "exampleBody =
     JObject
       [(''info'',
         JArray
           [JObject [(''id'', jstr ''42''), (''login'', jstr ''ab@a.1''),
                     (''tx_rate'', jstr ''1000000''), (''rx_rate'', jstr ''80000000''),
                     (''quota_monthly'', jstr ''1000''), (''quota_remaining'', jstr ''250''),
                     (''quota_timestamp'', jstr ''2023-06-15 12:00:00'')],
            JObject [(''id'', jstr ''42''), (''quota_remaining'', jstr ''-7'')],
            JObject [(''id'', jstr ''7'')]]),
        (''error'', jstr '''')]"

definition exampleLines :: "BroadbandInfo list" where
  "exampleLines =
     [zeroBroadbandInfo
        \<lparr>ID := 42, Login := ''ab@a.1'', TXRate := 1000000, RXRate := 80000000,
         QuotaMonthly := 1000, QuotaRemaining := 250,
         QuotaTimestamp := \<lparr>unixSec = 1686830400, nsec = 0, loc = utcLoc\<rparr>\<rparr>,
      zeroBroadbandInfo\<lparr>ID := 42, QuotaRemaining := - 7\<rparr>,
      zeroBroadbandInfo\<lparr>ID := 7\<rparr>]"


definition exampleQuotaWire :: "(BroadbandQuota \<times> string) list" where
  "exampleQuotaWire =
     [(\<lparr>quotaID = 42, quotaQuotaMonthly = 1000, quotaQuotaRemaining = 250,
        quotaQuotaTimestamp = \<lparr>unixSec = 1686830400, nsec = 0, loc = utcLoc\<rparr>\<rparr>,
       ''2023-06-15 12:00:00'')]"



section \<open>Properties\<close>

subsection \<open>Auxiliary facts\<close>

lemma makeRequest_Response:
  "net (request api path) = Response code (Bytes b) \<Longrightarrow>
   makeRequest api net path = (if code \<noteq> StatusOK then Inl (BadResponseCode code) else Inr b)"
  by (simp add: makeRequest_def)

lemma makeRequest_answer:
  "makeRequest api (answer code v) path =
     (if code \<noteq> StatusOK then Inl (BadResponseCode code) else Inr (Some v))"
  by (simp add: makeRequest_def answer_def)

lemmas envelope_defs = Unmarshal_def storeStruct_def envelopeField_def isField_def
  storeString_def storeSlice_def zeroEnvelope_def jstr_def

lemma length_sendLines: "length (sendLines lines) = 4 * length lines"
  by (induction lines) simp_all

lemma sendLines_nth:
  "i < length lines \<Longrightarrow>
   sendLines lines ! (4 * i) =
     MustNewConstMetric broadbandQuotaRemainingDesc GaugeValue (QuotaRemaining (lines ! i))
       [Itoa (ID (lines ! i))]
   \<and> sendLines lines ! (4 * i + 1) =
     MustNewConstMetric broadbandQuotaTotalDesc CounterValue (QuotaMonthly (lines ! i))
       [Itoa (ID (lines ! i))]
   \<and> sendLines lines ! (4 * i + 2) =
     MustNewConstMetric broadbandTXRateDesc GaugeValue (TXRate (lines ! i)) [Itoa (ID (lines ! i))]
   \<and> sendLines lines ! (4 * i + 3) =
     MustNewConstMetric broadbandRXRateDesc GaugeValue (RXRate (lines ! i)) [Itoa (ID (lines ! i))]"
proof (induction lines arbitrary: i)
  case Nil
  then show ?case by simp
next
  case (Cons line lines)
  show ?case
  proof (cases i)
    case 0
    then show ?thesis by simp
  next
    case (Suc j)
    then have j: "j < length lines" using Cons.prems by simp
    have idx: "4 * Suc j = Suc (Suc (Suc (Suc (4 * j))))" by simp
    show ?thesis
      using Cons.IH [OF j] by (simp add: Suc idx ac_simps)
  qed
qed

lemma storeMembers_no_fields:
  assumes "Error r = ''''"
      and "\<forall>(k, v) \<in> set ms. \<not> isField name k
             \<and> (isField ''error'' k \<longrightarrow> v = JNull \<or> (\<exists>raw. v = JString raw ''''))"
  shows "storeMembers (envelopeField name dec z) ms r = Some r"
  using assms
proof (induction ms)
  case Nil
  then show ?case by simp
next
  case (Cons m ms)
  obtain k v where m: "m = (k, v)" by (cases m)
  have "envelopeField name dec z k v r = Some r"
    using Cons.prems by (auto simp: m envelopeField_def storeString_def)
  then show ?case
    using Cons by (simp add: m)
qed

lemma Date_loc: "loc (Date year month day hour minute sec ns l) = l"
  by (simp add: Date_def Let_def split: prod.splits)

lemma Time_eqI: "unixSec t = u \<Longrightarrow> nsec t = n \<Longrightarrow> loc t = l \<Longrightarrow> t = \<lparr>unixSec = u, nsec = n, loc = l\<rparr>"
  by (cases t) simp

lemma Trim_quoted:
  assumes "s \<noteq> []" "hd s \<noteq> CHR 0x22" "last s \<noteq> CHR 0x22"
  shows "Trim (quoted s) (CHR 0x22) = s"
proof -
  obtain a t where fr: "s = a # t" using assms(1) by (cases s) auto
  obtain u b where bk: "s = u @ [b]" using assms(1) by (cases s rule: rev_cases) auto
  have a: "a \<noteq> CHR 0x22" using assms(2) fr by simp
  have b: "b \<noteq> CHR 0x22" using assms(3) bk by simp
  have "dropWhile (\<lambda>x. x = CHR 0x22) (quoted s) = s @ [CHR 0x22]"
    using a by (simp add: quoted_def fr)
  moreover have "dropWhile (\<lambda>x. x = CHR 0x22) (rev (s @ [CHR 0x22])) = rev s"
    using b by (simp add: bk)
  ultimately show ?thesis by (simp add: Trim_def)
qed

lemma example_timestamp:
  "UnmarshalJSON noZones (quoted ''2023-06-15 12:00:00'')
     = Inr \<lparr>unixSec = 1686830400, nsec = 0, loc = utcLoc\<rparr>"
proof -
  have p: "parseLayout ''2023-06-15 12:00:00'' = Some (2023, 6, 15, 12, 0, 0, 0)" by code_simp
  have u: "unixSec (Date 2023 6 15 12 0 0 0 utcLoc) = 1686830400" by code_simp
  have n: "nsec (Date 2023 6 15 12 0 0 0 utcLoc) = 0" by code_simp
  have d: "Date 2023 6 15 12 0 0 0 utcLoc = \<lparr>unixSec = 1686830400, nsec = 0, loc = utcLoc\<rparr>"
    by (rule Time_eqI [OF u n Date_loc])
  show ?thesis
    by (simp add: UnmarshalJSON_def Trim_quoted LoadLocation_def noZones_def ParseInLocation_def p d)
qed

lemma example_ints:
  "ParseInt ''42'' = Some 42" "ParseInt ''1000000'' = Some 1000000"
  "ParseInt ''80000000'' = Some 80000000" "ParseInt ''1000'' = Some 1000"
  "ParseInt ''250'' = Some 250" "ParseInt ''-7'' = Some (- 7)" "ParseInt ''7'' = Some 7"
  by code_simp+

lemma example_digits:
  "isDigitChar CHR ''4''" "isDigitChar CHR ''1''" "isDigitChar CHR ''8''" "isDigitChar CHR ''2''"
  "isDigitChar CHR ''7''"
  by code_simp+

lemma example_fetch:
  "API_BroadbandInfo noZones exampleAPI (answer 200 exampleBody) = Inr exampleLines"
  by (simp add: API_BroadbandInfo_def makeRequest_answer StatusOK_def envelope_defs
      exampleBody_def exampleLines_def infoField_def storeQuotedInt_def storeChaosTime_def
      example_timestamp example_ints example_digits zeroBroadbandInfo_def)

lemma of_char_digitChar: "d < 10 \<Longrightarrow> (of_char (digitChar d) :: nat) = 48 + d"
  by (simp add: digitChar_def)

lemma isDigitChar_digitChar: "d < 10 \<Longrightarrow> isDigitChar (digitChar d)"
  by (simp add: isDigitChar_def of_char_digitChar)

lemma digitVal_digitChar: "d < 10 \<Longrightarrow> digitVal (digitChar d) = int d"
  by (simp add: digitVal_def of_char_digitChar)

lemma decimalValue_snoc: "decimalValue (s @ [c]) = 10 * decimalValue s + digitVal c"
  by (simp add: decimalValue_def)

lemma decimal_digits: "list_all isDigitChar (decimal n)"
proof (induction n rule: decimal.induct)
  case (1 n)
  show ?case
  proof (cases "n < 10")
    case True
    then show ?thesis by (subst decimal.simps) (simp add: isDigitChar_digitChar)
  next
    case False
    then show ?thesis
      using 1 by (subst decimal.simps) (simp add: isDigitChar_digitChar)
  qed
qed

lemma decimal_nonempty: "decimal n \<noteq> []"
  by (subst decimal.simps) simp

lemma decimalValue_decimal: "decimalValue (decimal n) = int n"
proof (induction n rule: decimal.induct)
  case (1 n)
  show ?case
  proof (cases "n < 10")
    case True
    then show ?thesis
      by (subst decimal.simps) (simp add: decimalValue_def digitVal_digitChar)
  next
    case False
    have "decimalValue (decimal n)
          = 10 * decimalValue (decimal (n div 10)) + digitVal (digitChar (n mod 10))"
      using False by (subst decimal.simps) (simp add: decimalValue_snoc)
    also have "\<dots> = 10 * int (n div 10) + int (n mod 10)"
      using 1 False by (simp add: digitVal_digitChar)
    also have "\<dots> = int n" by presburger
    finally show ?thesis .
  qed
qed

lemma isDigitChar_not_sign:
  "isDigitChar c \<Longrightarrow> c \<noteq> CHR ''-'' \<and> c \<noteq> CHR ''+'' \<and> c \<noteq> CHR ''n''"
  by (auto simp: isDigitChar_def)

lemma hd_decimal: "isDigitChar (hd (decimal n))"
  using decimal_digits [of n] decimal_nonempty [of n] by (cases "decimal n") simp_all

lemma ParseInt_Itoa:
  assumes "int64 n"
  shows "ParseInt (Itoa n) = Some n"
proof (cases "n < 0")
  case True
  then show ?thesis
    using assms decimal_digits [of "nat (- n)"] decimal_nonempty [of "nat (- n)"]
    by (simp add: ParseInt_def Itoa_def decimalValue_decimal int64_def)
next
  case False
  have "hd (decimal (nat n)) \<noteq> CHR ''-''" "hd (decimal (nat n)) \<noteq> CHR ''+''"
    using isDigitChar_not_sign [OF hd_decimal] by auto
  then show ?thesis
    using False assms decimal_digits [of "nat n"] decimal_nonempty [of "nat n"]
    by (simp add: ParseInt_def Itoa_def decimalValue_decimal int64_def)
qed

lemma hd_Itoa:
  "Itoa n \<noteq> [] \<and> hd (Itoa n) \<noteq> CHR ''n''
   \<and> (hd (Itoa n) = CHR ''-'' \<or> isDigitChar (hd (Itoa n)))"
  using isDigitChar_not_sign [OF hd_decimal] hd_decimal decimal_nonempty
  by (simp add: Itoa_def)

lemma storeQuotedInt_Itoa: "int64 n \<Longrightarrow> storeQuotedInt (jstr (Itoa n)) cur = Some n"
  using hd_Itoa [of n] ParseInt_Itoa [of n] by (auto simp: storeQuotedInt_def jstr_def)

lemma storeInt_Itoa: "int64 n \<Longrightarrow> storeInt (JNumber (Itoa n)) cur = Some n"
  using hd_Itoa [of n] ParseInt_Itoa [of n] by (auto simp: storeInt_def)

lemma storeInt_string: "storeInt (jstr s) cur = None"
  by (simp add: storeInt_def jstr_def)

lemma infoField_keys:
  "infoField z ''id'' v r = map_option (\<lambda>x. r\<lparr>ID := x\<rparr>) (storeQuotedInt v (ID r))"
  "infoField z ''login'' v r = map_option (\<lambda>x. r\<lparr>Login := x\<rparr>) (storeString v (Login r))"
  "infoField z ''postcode'' v r = map_option (\<lambda>x. r\<lparr>Postcode := x\<rparr>) (storeString v (Postcode r))"
  "infoField z ''tx_rate'' v r = map_option (\<lambda>x. r\<lparr>TXRate := x\<rparr>) (storeQuotedInt v (TXRate r))"
  "infoField z ''rx_rate'' v r = map_option (\<lambda>x. r\<lparr>RXRate := x\<rparr>) (storeQuotedInt v (RXRate r))"
  "infoField z ''tx_rate_adjusted'' v r =
     map_option (\<lambda>x. r\<lparr>TXRateAdjusted := x\<rparr>) (storeQuotedInt v (TXRateAdjusted r))"
  "infoField z ''quota_monthly'' v r =
     map_option (\<lambda>x. r\<lparr>QuotaMonthly := x\<rparr>) (storeQuotedInt v (QuotaMonthly r))"
  "infoField z ''quota_remaining'' v r =
     map_option (\<lambda>x. r\<lparr>QuotaRemaining := x\<rparr>) (storeQuotedInt v (QuotaRemaining r))"
  "infoField z ''quota_timestamp'' v r =
     map_option (\<lambda>x. r\<lparr>QuotaTimestamp := x\<rparr>) (storeChaosTime z v (QuotaTimestamp r))"
  by (simp_all add: infoField_def isField_def)

lemma quotaField_keys:
  "quotaField z ''id'' v r = map_option (\<lambda>x. r\<lparr>quotaID := x\<rparr>) (storeQuotedInt v (quotaID r))"
  "quotaField z ''quota_monthly'' v r =
     map_option (\<lambda>x. r\<lparr>quotaQuotaMonthly := x\<rparr>) (storeInt v (quotaQuotaMonthly r))"
  "quotaField z ''quota_remaining'' v r =
     map_option (\<lambda>x. r\<lparr>quotaQuotaRemaining := x\<rparr>) (storeQuotedInt v (quotaQuotaRemaining r))"
  "quotaField z ''quota_timestamp'' v r =
     map_option (\<lambda>x. r\<lparr>quotaQuotaTimestamp := x\<rparr>) (storeChaosTime z v (quotaQuotaTimestamp r))"
  by (simp_all add: quotaField_def isField_def)

lemma storeChaosTime_string:
  "UnmarshalJSON z (quoted ts) = Inr t \<Longrightarrow> storeChaosTime z (jstr ts) cur = Some t"
  by (simp add: storeChaosTime_def jstr_def)

lemma storeString_jstr: "storeString (jstr s) cur = Some s"
  by (simp add: storeString_def jstr_def)

lemma storeStruct_JObject: "storeStruct f (JObject ms) cur = storeMembers f ms cur"
  by (simp add: storeStruct_def)


lemma store_quotaJSON:
  assumes "wireQuota z (r, ts)"
  shows "storeStruct (quotaField z) (quotaJSON (\<lambda>n. JNumber (Itoa n)) r ts) cur = Some r"
  using assms
  by (simp add: storeStruct_JObject quotaJSON_def wireQuota_def quotaField_keys storeQuotedInt_Itoa
      storeInt_Itoa storeChaosTime_string)

lemma store_quotaJSON_string:
  "storeStruct (quotaField z) (quotaJSON (\<lambda>n. jstr (Itoa n)) r ts) cur = None"
  by (cases "storeQuotedInt (jstr (Itoa (quotaID r))) (quotaID cur)")
     (simp_all add: storeStruct_JObject quotaJSON_def quotaField_keys storeInt_string)

lemma storeElems_all:
  assumes "\<forall>x \<in> set xs. \<forall>cur. dec (enc x) cur = Some (out x)"
  shows "storeElems dec z (map enc xs) cur = Some (map out xs)"
  using assms by (induction xs arbitrary: cur) simp_all

lemma envelope_keys:
  "envelopeField ''info'' dec z ''info'' v r =
     map_option (\<lambda>x. r\<lparr>Records := x\<rparr>) (storeSlice dec z v (Records r))"
  "envelopeField ''quota'' dec z ''quota'' v r =
     map_option (\<lambda>x. r\<lparr>Records := x\<rparr>) (storeSlice dec z v (Records r))"
  "envelopeField ''info'' dec z ''error'' v r =
     map_option (\<lambda>x. r\<lparr>Error := x\<rparr>) (storeString v (Error r))"
  "envelopeField ''quota'' dec z ''error'' v r =
     map_option (\<lambda>x. r\<lparr>Error := x\<rparr>) (storeString v (Error r))"
  by (simp_all add: envelopeField_def isField_def)


lemma Unmarshal_quotaEnvelope:
  assumes "\<forall>l \<in> set lines. wireQuota z l"
  shows "Unmarshal ''quota'' (storeStruct (quotaField z)) zeroBroadbandQuota
           (Some (quotaEnvelope (\<lambda>n. JNumber (Itoa n)) lines))
         = Some \<lparr>Records = map fst lines, Error = ''''\<rparr>"
proof -
  have "storeElems (storeStruct (quotaField z)) zeroBroadbandQuota
          (map (\<lambda>(r, ts). quotaJSON (\<lambda>n. JNumber (Itoa n)) r ts) lines) [] = Some (map fst lines)"
    using assms by (intro storeElems_all) (auto simp: store_quotaJSON)
  then show ?thesis
    by (simp add: Unmarshal_def storeStruct_JObject quotaEnvelope_def envelope_keys storeSlice_def
        zeroEnvelope_def storeString_jstr)
qed

lemma Unmarshal_quotaEnvelope_string:
  assumes "lines \<noteq> []"
  shows "Unmarshal ''quota'' (storeStruct (quotaField z)) zeroBroadbandQuota
           (Some (quotaEnvelope (\<lambda>n. jstr (Itoa n)) lines)) = None"
proof -
  obtain r ts rest where l: "lines = (r, ts) # rest" using assms by (cases lines) auto
  show ?thesis
    by (simp add: Unmarshal_def storeStruct_JObject quotaEnvelope_def envelope_keys storeSlice_def
        zeroEnvelope_def l store_quotaJSON_string)
qed

lemma example_int64:
  "int64 42" "int64 1000000" "int64 80000000" "int64 900000" "int64 1000" "int64 250"
  by (simp_all add: int64_def)


lemma example_wireQuota: "\<forall>l \<in> set exampleQuotaWire. wireQuota noZones l"
  by (simp add: exampleQuotaWire_def wireQuota_def example_int64 example_timestamp)

lemma digitChar_table:
  "digitChar 0 = CHR ''0''" "digitChar 1 = CHR ''1''" "digitChar (Suc 0) = CHR ''1''"
  "digitChar 2 = CHR ''2''" "digitChar 3 = CHR ''3''" "digitChar 4 = CHR ''4''"
  "digitChar 5 = CHR ''5''" "digitChar 6 = CHR ''6''" "digitChar 7 = CHR ''7''"
  "digitChar 8 = CHR ''8''" "digitChar 9 = CHR ''9''"
  by code_simp+

lemma example_Itoa:
  "Itoa 42 = ''42''" "Itoa 1000000 = ''1000000''" "Itoa 80000000 = ''80000000''"
  "Itoa 900000 = ''900000''" "Itoa 1000 = ''1000''" "Itoa 250 = ''250''"
  by (simp_all add: Itoa_def decimal.simps digitChar_table)

subsection \<open>The client and the HTTP status\<close>

text \<open>
  Claim C5, as stated, fails: \<open>makeRequest\<close> reads the body before it looks at the
  status, and returns the error of \<open>ioutil.ReadAll\<close> when there is one. A response with
  status 500 whose body cannot be read to its end gives the error
  \<open>error reading response body: unexpected EOF\<close>, which does not carry the status code.
\<close>

theorem read_error_precedes_status:
  "(500 :: int) \<noteq> StatusOK
   \<and> API_BroadbandInfo noZones exampleAPI (\<lambda>r. Response 500 (ReadFailed ''unexpected EOF''))
       = Inl (ReadBodyError ''unexpected EOF'')
   \<and> API_BroadbandQuota noZones exampleAPI (\<lambda>r. Response 500 (ReadFailed ''unexpected EOF''))
       = Inl (ReadBodyError ''unexpected EOF'')
   \<and> message (ReadBodyError ''unexpected EOF'')
       = Some ''error reading response body: unexpected EOF''
   \<and> message (BadResponseCode 500) = Some ''bad response code: 500''"
proof -
  have "Itoa 500 = ''500''" by code_simp
  then show ?thesis
    by (simp add: API_BroadbandInfo_def API_BroadbandQuota_def makeRequest_def StatusOK_def
        message_def)
qed

text \<open>
  Claim C5, amended. When the response to \<open>BroadbandInfo\<close> or \<open>BroadbandQuota\<close> has a
  status other than 200 and its body has been read to the end, the call returns no
  records and the error \<open>bad response code: <status>\<close>, which carries the status code,
  whatever the body is (valid JSON or not). When reading the body fails, the call
  returns no records and the error \<open>error reading response body: ...\<close> with the message
  of the failure, whatever the status is.
\<close>

theorem status_error_after_body_read:
  "(code \<noteq> StatusOK \<and> net (request api ''/broadband/info'') = Response code (Bytes b)
      \<longrightarrow> API_BroadbandInfo z api net = Inl (BadResponseCode code))
   \<and> (code \<noteq> StatusOK \<and> net (request api ''/broadband/quota'') = Response code (Bytes b)
      \<longrightarrow> API_BroadbandQuota z api net = Inl (BadResponseCode code))
   \<and> message (BadResponseCode code) = Some (''bad response code: '' @ Itoa code)
   \<and> (net (request api ''/broadband/info'') = Response code (ReadFailed e)
      \<longrightarrow> API_BroadbandInfo z api net = Inl (ReadBodyError e))
   \<and> (net (request api ''/broadband/quota'') = Response code (ReadFailed e)
      \<longrightarrow> API_BroadbandQuota z api net = Inl (ReadBodyError e))
   \<and> message (ReadBodyError e) = Some (''error reading response body: '' @ e)"
  by (simp add: API_BroadbandInfo_def API_BroadbandQuota_def makeRequest_def message_def)

theorem status_error_after_body_read_witness:
  "(404 :: int) \<noteq> StatusOK
   \<and> answer 404 exampleBody (request exampleAPI ''/broadband/info'')
       = Response 404 (Bytes (Some exampleBody))
   \<and> API_BroadbandInfo noZones exampleAPI (answer 404 exampleBody) = Inl (BadResponseCode 404)
   \<and> API_BroadbandQuota noZones exampleAPI (answer 404 exampleBody) = Inl (BadResponseCode 404)
   \<and> message (BadResponseCode 404) = Some ''bad response code: 404''
   \<and> API_BroadbandInfo noZones exampleAPI (\<lambda>r. Response 200 (ReadFailed ''unexpected EOF''))
       = Inl (ReadBodyError ''unexpected EOF'')
   \<and> API_BroadbandQuota noZones exampleAPI (\<lambda>r. Response 200 (ReadFailed ''unexpected EOF''))
       = Inl (ReadBodyError ''unexpected EOF'')"
proof -
  have ne: "(404 :: int) \<noteq> StatusOK" by (simp add: StatusOK_def)
  have itoa: "Itoa 404 = ''404''" by code_simp
  show ?thesis
    using ne
      status_error_after_body_read [of 404 "answer 404 exampleBody" exampleAPI
        "Some exampleBody" noZones]
      status_error_after_body_read [of 200 "\<lambda>r. Response 200 (ReadFailed ''unexpected EOF'')"
        exampleAPI _ noZones "''unexpected EOF''"]
    by (simp add: itoa answer_def)
qed

text \<open>
  Claim C1, as stated, fails: \<open>makeRequest\<close> refuses a status other than 200 before
  the body is decoded. A response with status 500 whose body is the envelope
  \<open>{"error": "bad"}\<close> gives the error \<open>bad response code: 500\<close>, not \<open>bad\<close>.
\<close>

theorem status_precedes_error_field:
  "Unmarshal ''info'' (storeStruct (infoField noZones)) zeroBroadbandInfo
     (Some (JObject [(''error'', jstr ''bad'')])) = Some \<lparr>Records = [], Error = ''bad''\<rparr>
   \<and> API_BroadbandInfo noZones exampleAPI (answer 500 (JObject [(''error'', jstr ''bad'')]))
       = Inl (BadResponseCode 500)
   \<and> message (BadResponseCode 500) = Some ''bad response code: 500''"
proof -
  have "Itoa 500 = ''500''" by code_simp
  then show ?thesis
    by (simp add: API_BroadbandInfo_def makeRequest_answer StatusOK_def message_def envelope_defs)
qed

text \<open>
  Claim C1, amended. When the response to \<open>BroadbandInfo\<close> or \<open>BroadbandQuota\<close> has
  status 200 and its body, read to the end, decodes to an envelope with a non-empty
  error string, the call returns no records and an error whose message is that string.
  When the response has another status and its body has been read to the end, the call
  returns no records and the error \<open>bad response code: <status>\<close>, whatever the body
  and the error string in it are.
\<close>

theorem error_field_after_status:
  "(net (request api ''/broadband/info'') = Response StatusOK (Bytes b)
      \<and> Unmarshal ''info'' (storeStruct (infoField z)) zeroBroadbandInfo b = Some r
      \<and> Error r \<noteq> ''''
    \<longrightarrow> API_BroadbandInfo z api net = Inl (ErrorsNew (Error r))
        \<and> message (ErrorsNew (Error r)) = Some (Error r))
   \<and> (net (request api ''/broadband/quota'') = Response StatusOK (Bytes b)
      \<and> Unmarshal ''quota'' (storeStruct (quotaField z)) zeroBroadbandQuota b = Some q
      \<and> Error q \<noteq> ''''
    \<longrightarrow> API_BroadbandQuota z api net = Inl (ErrorsNew (Error q))
        \<and> message (ErrorsNew (Error q)) = Some (Error q))
   \<and> (net (request api ''/broadband/info'') = Response code (Bytes c) \<and> code \<noteq> StatusOK
    \<longrightarrow> API_BroadbandInfo z api net = Inl (BadResponseCode code)
        \<and> message (BadResponseCode code) = Some (''bad response code: '' @ Itoa code))
   \<and> (net (request api ''/broadband/quota'') = Response code (Bytes c) \<and> code \<noteq> StatusOK
    \<longrightarrow> API_BroadbandQuota z api net = Inl (BadResponseCode code)
        \<and> message (BadResponseCode code) = Some (''bad response code: '' @ Itoa code))"
  by (simp add: API_BroadbandInfo_def API_BroadbandQuota_def makeRequest_Response message_def)

theorem error_field_after_status_witness:
  "Unmarshal ''info'' (storeStruct (infoField noZones)) zeroBroadbandInfo
     (Some (JObject [(''error'', jstr ''bad'')])) = Some \<lparr>Records = [], Error = ''bad''\<rparr>
   \<and> Unmarshal ''quota'' (storeStruct (quotaField noZones)) zeroBroadbandQuota
     (Some (JObject [(''error'', jstr ''bad'')])) = Some \<lparr>Records = [], Error = ''bad''\<rparr>
   \<and> API_BroadbandInfo noZones exampleAPI (answer 200 (JObject [(''error'', jstr ''bad'')]))
       = Inl (ErrorsNew ''bad'')
   \<and> API_BroadbandQuota noZones exampleAPI (answer 200 (JObject [(''error'', jstr ''bad'')]))
       = Inl (ErrorsNew ''bad'')
   \<and> message (ErrorsNew ''bad'') = Some ''bad''
   \<and> (503 :: int) \<noteq> StatusOK
   \<and> API_BroadbandInfo noZones exampleAPI (answer 503 (JObject [(''error'', jstr ''bad'')]))
       = Inl (BadResponseCode 503)
   \<and> API_BroadbandQuota noZones exampleAPI (answer 503 (JObject [(''error'', jstr ''bad'')]))
       = Inl (BadResponseCode 503)
   \<and> message (BadResponseCode 503) = Some ''bad response code: 503''"
proof -
  let ?b = "Some (JObject [(''error'', jstr ''bad'')])"
  let ?net = "answer 200 (JObject [(''error'', jstr ''bad'')])"
  let ?down = "answer 503 (JObject [(''error'', jstr ''bad'')])"
  have i: "Unmarshal ''info'' (storeStruct (infoField noZones)) zeroBroadbandInfo ?b
           = Some \<lparr>Records = [], Error = ''bad''\<rparr>"
    by (simp add: envelope_defs)
  have q: "Unmarshal ''quota'' (storeStruct (quotaField noZones)) zeroBroadbandQuota ?b
           = Some \<lparr>Records = [], Error = ''bad''\<rparr>"
    by (simp add: envelope_defs)
  have n: "?net (request exampleAPI p) = Response StatusOK (Bytes ?b)" for p
    by (simp add: answer_def StatusOK_def)
  have d: "?down (request exampleAPI p) = Response 503 (Bytes ?b)" for p
    by (simp add: answer_def)
  have ne: "(503 :: int) \<noteq> StatusOK" by (simp add: StatusOK_def)
  have itoa: "Itoa 503 = ''503''" by code_simp
  show ?thesis
    using error_field_after_status [of ?net exampleAPI ?b noZones
        "\<lparr>Records = [], Error = ''bad''\<rparr>" "\<lparr>Records = [], Error = ''bad''\<rparr>" StatusOK ?b]
      error_field_after_status [of ?down exampleAPI ?b noZones
        "\<lparr>Records = [], Error = ''bad''\<rparr>" "\<lparr>Records = [], Error = ''bad''\<rparr>" 503 ?b]
      i q n d ne
    by (simp add: itoa)
qed

subsection \<open>The collector\<close>

text \<open>
  Claim C3. When the fetch succeeds with N line records, \<open>Collect\<close> sets the gauge
  \<open>aaisp_scrape_success\<close> to 1, logs nothing, and sends exactly 4 * N metrics: for the
  i-th record, in the order of the response, the quota remaining, the quota total, the
  transmit rate and the receive rate, each labelled with the record's identifier in
  decimal. Nothing is sorted or merged: records with the same identifier give metrics
  with the same label.
\<close>

theorem collect_success:
  "API_BroadbandInfo z api net = Inr lines \<longrightarrow>
     fst (broadbandCollector_Collect z api net st) = st\<lparr>scrapeSuccessGauge := 1\<rparr>
     \<and> length (snd (broadbandCollector_Collect z api net st)) = 4 * length lines
     \<and> (\<forall>i < length lines.
          snd (broadbandCollector_Collect z api net st) ! (4 * i) =
            MustNewConstMetric broadbandQuotaRemainingDesc GaugeValue
              (QuotaRemaining (lines ! i)) [Itoa (ID (lines ! i))]
        \<and> snd (broadbandCollector_Collect z api net st) ! (4 * i + 1) =
            MustNewConstMetric broadbandQuotaTotalDesc CounterValue
              (QuotaMonthly (lines ! i)) [Itoa (ID (lines ! i))]
        \<and> snd (broadbandCollector_Collect z api net st) ! (4 * i + 2) =
            MustNewConstMetric broadbandTXRateDesc GaugeValue
              (TXRate (lines ! i)) [Itoa (ID (lines ! i))]
        \<and> snd (broadbandCollector_Collect z api net st) ! (4 * i + 3) =
            MustNewConstMetric broadbandRXRateDesc GaugeValue
              (RXRate (lines ! i)) [Itoa (ID (lines ! i))])"
proof
  assume ok: "API_BroadbandInfo z api net = Inr lines"
  have c: "broadbandCollector_Collect z api net st = (st\<lparr>scrapeSuccessGauge := 1\<rparr>, sendLines lines)"
    using ok by (simp add: broadbandCollector_Collect_def)
  show "fst (broadbandCollector_Collect z api net st) = st\<lparr>scrapeSuccessGauge := 1\<rparr>
     \<and> length (snd (broadbandCollector_Collect z api net st)) = 4 * length lines
     \<and> (\<forall>i < length lines.
          snd (broadbandCollector_Collect z api net st) ! (4 * i) =
            MustNewConstMetric broadbandQuotaRemainingDesc GaugeValue
              (QuotaRemaining (lines ! i)) [Itoa (ID (lines ! i))]
        \<and> snd (broadbandCollector_Collect z api net st) ! (4 * i + 1) =
            MustNewConstMetric broadbandQuotaTotalDesc CounterValue
              (QuotaMonthly (lines ! i)) [Itoa (ID (lines ! i))]
        \<and> snd (broadbandCollector_Collect z api net st) ! (4 * i + 2) =
            MustNewConstMetric broadbandTXRateDesc GaugeValue
              (TXRate (lines ! i)) [Itoa (ID (lines ! i))]
        \<and> snd (broadbandCollector_Collect z api net st) ! (4 * i + 3) =
            MustNewConstMetric broadbandRXRateDesc GaugeValue
              (RXRate (lines ! i)) [Itoa (ID (lines ! i))])"
    unfolding c using sendLines_nth [of _ lines] by (simp add: length_sendLines)
qed

theorem collect_success_witness:
  "API_BroadbandInfo noZones exampleAPI (answer 200 exampleBody) = Inr exampleLines
   \<and> fst (broadbandCollector_Collect noZones exampleAPI (answer 200 exampleBody) exampleState)
       = \<lparr>scrapeSuccessGauge = 1, logged = []\<rparr>
   \<and> length (snd (broadbandCollector_Collect noZones exampleAPI (answer 200 exampleBody) exampleState)) = 12
   \<and> snd (broadbandCollector_Collect noZones exampleAPI (answer 200 exampleBody) exampleState) ! 4
       = MustNewConstMetric broadbandQuotaRemainingDesc GaugeValue (- 7) [''42'']
   \<and> snd (broadbandCollector_Collect noZones exampleAPI (answer 200 exampleBody) exampleState) ! 5
       = MustNewConstMetric broadbandQuotaTotalDesc CounterValue 0 [''42'']
   \<and> snd (broadbandCollector_Collect noZones exampleAPI (answer 200 exampleBody) exampleState) ! 6
       = MustNewConstMetric broadbandTXRateDesc GaugeValue 0 [''42'']
   \<and> snd (broadbandCollector_Collect noZones exampleAPI (answer 200 exampleBody) exampleState) ! 7
       = MustNewConstMetric broadbandRXRateDesc GaugeValue 0 [''42'']"
proof -
  note w = collect_success [of noZones exampleAPI "answer 200 exampleBody" exampleLines
      exampleState, rule_format, OF example_fetch]
  have len: "length exampleLines = 3"
    and line: "exampleLines ! Suc 0 = zeroBroadbandInfo\<lparr>ID := 42, QuotaRemaining := - 7\<rparr>"
    by (simp_all add: exampleLines_def)
  have itoa: "Itoa 42 = ''42''" by code_simp
  show ?thesis
    using example_fetch w [THEN conjunct1] w [THEN conjunct2, THEN conjunct1]
      w [THEN conjunct2, THEN conjunct2, rule_format, of 1]
    by (simp add: len line itoa exampleState_def zeroBroadbandInfo_def)
qed

text \<open>
  Claim C4. When the fetch fails, with whatever error, \<open>Collect\<close> sets the gauge
  \<open>aaisp_scrape_success\<close> to 0, sends no metric and logs one event, at debug level, which
  does not end the process. Nothing is kept that a later scrape would depend on: the
  next call of \<open>Collect\<close> whose fetch succeeds sets the gauge to 1 and sends its metrics.
\<close>

theorem collect_failure:
  "API_BroadbandInfo z api net = Inl e \<longrightarrow>
     snd (broadbandCollector_Collect z api net st) = []
     \<and> scrapeSuccessGauge (fst (broadbandCollector_Collect z api net st)) = 0
     \<and> logged (fst (broadbandCollector_Collect z api net st)) =
         logged st @ [\<lparr>level = DebugLevel, err = Some e, msg = ''error getting broadband info''\<rparr>]
     \<and> \<not> endsProcess \<lparr>level = DebugLevel, err = Some e, msg = ''error getting broadband info''\<rparr>
     \<and> (\<forall>net' lines. API_BroadbandInfo z api net' = Inr lines \<longrightarrow>
          scrapeSuccessGauge
            (fst (broadbandCollector_Collect z api net'
                   (fst (broadbandCollector_Collect z api net st)))) = 1
          \<and> snd (broadbandCollector_Collect z api net'
                   (fst (broadbandCollector_Collect z api net st))) = sendLines lines)"
  by (simp add: broadbandCollector_Collect_def endsProcess_def)

theorem collect_failure_witness:
  "API_BroadbandInfo noZones exampleAPI (answer 503 exampleBody) = Inl (BadResponseCode 503)
   \<and> broadbandCollector_Collect noZones exampleAPI (answer 503 exampleBody) exampleState
       = (\<lparr>scrapeSuccessGauge = 0,
           logged = [\<lparr>level = DebugLevel, err = Some (BadResponseCode 503),
                      msg = ''error getting broadband info''\<rparr>]\<rparr>, [])
   \<and> scrapeSuccessGauge
        (fst (broadbandCollector_Collect noZones exampleAPI (answer 200 exampleBody)
               (fst (broadbandCollector_Collect noZones exampleAPI (answer 503 exampleBody)
                      exampleState)))) = 1"
proof -
  have f: "API_BroadbandInfo noZones exampleAPI (answer 503 exampleBody)
           = Inl (BadResponseCode 503)"
    by (simp add: API_BroadbandInfo_def makeRequest_answer StatusOK_def)
  note w = collect_failure [of noZones exampleAPI "answer 503 exampleBody" "BadResponseCode 503"
      exampleState, rule_format, OF f]
  have "broadbandCollector_Collect noZones exampleAPI (answer 503 exampleBody) exampleState
        = (fst (broadbandCollector_Collect noZones exampleAPI (answer 503 exampleBody) exampleState),
           snd (broadbandCollector_Collect noZones exampleAPI (answer 503 exampleBody) exampleState))"
    by simp
  moreover have "fst (broadbandCollector_Collect noZones exampleAPI (answer 503 exampleBody) exampleState)
        = \<lparr>scrapeSuccessGauge = 0,
           logged = [\<lparr>level = DebugLevel, err = Some (BadResponseCode 503),
                      msg = ''error getting broadband info''\<rparr>]\<rparr>"
    using w by (cases "fst (broadbandCollector_Collect noZones exampleAPI (answer 503 exampleBody)
        exampleState)") (simp add: exampleState_def)
  ultimately show ?thesis
    using f w [THEN conjunct1]
      w [THEN conjunct2, THEN conjunct2, THEN conjunct2, THEN conjunct2, rule_format,
        OF example_fetch, THEN conjunct1]
    by simp
qed

subsection \<open>Start-up\<close>








subsection \<open>An account without lines\<close>

text \<open>
  Claim C10. When the response has status 200 and its body is a JSON object that has no
  member for the field \<open>info\<close> and none for the field \<open>error\<close> but \<open>null\<close> or the empty
  string (the body \<open>{}\<close> for one), \<open>BroadbandInfo\<close> returns no records and no error, and
  \<open>Collect\<close> sets the gauge \<open>aaisp_scrape_success\<close> to 1 and sends no metric.
\<close>

theorem empty_account:
  "net (request api ''/broadband/info'') = Response StatusOK (Bytes (Some (JObject ms)))
   \<and> (\<forall>(k, v) \<in> set ms. \<not> isField ''info'' k
         \<and> (isField ''error'' k \<longrightarrow> v = JNull \<or> (\<exists>raw. v = JString raw '''')))
   \<longrightarrow> API_BroadbandInfo z api net = Inr []
       \<and> broadbandCollector_Collect z api net st = (st\<lparr>scrapeSuccessGauge := 1\<rparr>, [])"
proof
  assume a: "net (request api ''/broadband/info'') = Response StatusOK (Bytes (Some (JObject ms)))
   \<and> (\<forall>(k, v) \<in> set ms. \<not> isField ''info'' k
         \<and> (isField ''error'' k \<longrightarrow> v = JNull \<or> (\<exists>raw. v = JString raw '''')))"
  have "Unmarshal ''info'' (storeStruct (infoField z)) zeroBroadbandInfo (Some (JObject ms))
        = Some zeroEnvelope"
    using storeMembers_no_fields [OF _ a [THEN conjunct2], of zeroEnvelope]
    by (simp add: Unmarshal_def storeStruct_def zeroEnvelope_def)
  then have "API_BroadbandInfo z api net = Inr []"
    using a by (simp add: API_BroadbandInfo_def makeRequest_Response zeroEnvelope_def)
  then show "API_BroadbandInfo z api net = Inr []
       \<and> broadbandCollector_Collect z api net st = (st\<lparr>scrapeSuccessGauge := 1\<rparr>, [])"
    by (simp add: broadbandCollector_Collect_def)
qed

theorem empty_account_witness:
  "API_BroadbandInfo noZones exampleAPI (answer 200 (JObject [])) = Inr []
   \<and> broadbandCollector_Collect noZones exampleAPI (answer 200 (JObject [])) exampleState
       = (\<lparr>scrapeSuccessGauge = 1, logged = []\<rparr>, [])
   \<and> API_BroadbandInfo noZones exampleAPI
       (answer 200 (JObject [(''login'', jstr ''x''), (''Error'', JNull)])) = Inr []"
proof -
  have n: "answer 200 v (request exampleAPI ''/broadband/info'') = Response StatusOK (Bytes (Some v))"
    for v by (simp add: answer_def StatusOK_def)
  have f: "\<not> isField ''info'' ''login''" "\<not> isField ''info'' ''Error''"
    "\<not> isField ''error'' ''login''"
    by (simp_all add: isField_def)
  show ?thesis
    using empty_account [of "answer 200 (JObject [])" exampleAPI "[]" noZones exampleState]
      empty_account [of "answer 200 (JObject [(''login'', jstr ''x''), (''Error'', JNull)])"
        exampleAPI "[(''login'', jstr ''x''), (''Error'', JNull)]" noZones exampleState] n f
    by (simp add: exampleState_def)
qed

subsection \<open>Decoding\<close>



text \<open>
  Claim C7. The code does not do what the claim says: the field \<open>QuotaMonthly\<close> of
  \<open>BroadbandQuota\<close> is tagged \<open>json:"quota_monthly"\<close>, without the \<open>,string\<close> that
  its neighbours \<open>ID\<close> and \<open>QuotaRemaining\<close> and the field \<open>QuotaMonthly\<close> of
  \<open>BroadbandInfo\<close> carry, and \<open>encoding/json\<close> does not store a JSON string in an
  \<open>int\<close> so tagged. The quota envelope of the documented shape with one record is
  refused with a decoding error; the tag of \<open>BroadbandInfo\<close> accepts the same member.
\<close>

theorem quota_monthly_string_refused:
  "quotaEnvelope (\<lambda>n. jstr (Itoa n)) exampleQuotaWire =
     JObject
       [(''quota'',
         JArray
           [JObject [(''id'', jstr ''42''), (''quota_monthly'', jstr ''1000''),
                     (''quota_remaining'', jstr ''250''),
                     (''quota_timestamp'', jstr ''2023-06-15 12:00:00'')]]),
        (''error'', jstr '''')]
   \<and> API_BroadbandQuota noZones exampleAPI
        (answer 200 (quotaEnvelope (\<lambda>n. jstr (Itoa n)) exampleQuotaWire)) = Inl QuotaDecodeError
   \<and> quotaField noZones ''quota_monthly'' (jstr ''1000'') zeroBroadbandQuota = None
   \<and> infoField noZones ''quota_monthly'' (jstr ''1000'') zeroBroadbandInfo
       = Some (zeroBroadbandInfo\<lparr>QuotaMonthly := 1000\<rparr>)"
proof -
  have d: "quotaEnvelope (\<lambda>n. jstr (Itoa n)) exampleQuotaWire =
     JObject
       [(''quota'',
         JArray
           [JObject [(''id'', jstr ''42''), (''quota_monthly'', jstr ''1000''),
                     (''quota_remaining'', jstr ''250''),
                     (''quota_timestamp'', jstr ''2023-06-15 12:00:00'')]]),
        (''error'', jstr '''')]"
    by (simp add: quotaEnvelope_def exampleQuotaWire_def quotaJSON_def example_Itoa)
  have ne: "exampleQuotaWire \<noteq> []" by (simp add: exampleQuotaWire_def)
  have a: "API_BroadbandQuota noZones exampleAPI
        (answer 200 (quotaEnvelope (\<lambda>n. jstr (Itoa n)) exampleQuotaWire)) = Inl QuotaDecodeError"
    by (simp add: API_BroadbandQuota_def makeRequest_answer StatusOK_def
        Unmarshal_quotaEnvelope_string [OF ne])
  have q: "quotaField noZones ''quota_monthly'' (jstr ''1000'') zeroBroadbandQuota = None"
    by (simp add: quotaField_keys storeInt_string)
  have i: "infoField noZones ''quota_monthly'' (jstr ''1000'') zeroBroadbandInfo
       = Some (zeroBroadbandInfo\<lparr>QuotaMonthly := 1000\<rparr>)"
    using storeQuotedInt_Itoa [of 1000 "QuotaMonthly zeroBroadbandInfo"]
    by (simp add: infoField_keys example_Itoa example_int64)
  show ?thesis using d a q i by (simp only: simp_thms)
qed

text \<open>
  What \<open>BroadbandQuota\<close> decodes as the code stands: it returns the records of every
  quota envelope of the documented shape in which \<open>quota_monthly\<close> is a JSON number (an
  integer of 64 bits in decimal) instead of a numeric string; with \<open>quota_monthly\<close> a
  numeric string, the form that the decoder of \<open>BroadbandInfo\<close> accepts, and at least one
  record, it returns a decoding error.
\<close>

theorem quota_monthly_number:
  "(net (request api ''/broadband/quota'')
        = Response StatusOK (Bytes (Some (quotaEnvelope (\<lambda>n. JNumber (Itoa n)) lines)))
      \<and> (\<forall>l \<in> set lines. wireQuota z l)
    \<longrightarrow> API_BroadbandQuota z api net = Inr (map fst lines))
   \<and> (net (request api ''/broadband/quota'')
        = Response StatusOK (Bytes (Some (quotaEnvelope (\<lambda>n. jstr (Itoa n)) lines)))
      \<and> lines \<noteq> []
    \<longrightarrow> API_BroadbandQuota z api net = Inl QuotaDecodeError)"
proof (intro conjI impI; elim conjE)
  assume "net (request api ''/broadband/quota'')
          = Response StatusOK (Bytes (Some (quotaEnvelope (\<lambda>n. JNumber (Itoa n)) lines)))"
    and "\<forall>l \<in> set lines. wireQuota z l"
  then show "API_BroadbandQuota z api net = Inr (map fst lines)"
    by (simp add: API_BroadbandQuota_def makeRequest_Response Unmarshal_quotaEnvelope)
next
  assume "net (request api ''/broadband/quota'')
          = Response StatusOK (Bytes (Some (quotaEnvelope (\<lambda>n. jstr (Itoa n)) lines)))"
    and "lines \<noteq> []"
  then show "API_BroadbandQuota z api net = Inl QuotaDecodeError"
    by (simp add: API_BroadbandQuota_def makeRequest_Response Unmarshal_quotaEnvelope_string)
qed

theorem quota_monthly_number_witness:
  "quotaEnvelope (\<lambda>n. JNumber (Itoa n)) exampleQuotaWire =
     JObject
       [(''quota'',
         JArray
           [JObject [(''id'', jstr ''42''), (''quota_monthly'', JNumber ''1000''),
                     (''quota_remaining'', jstr ''250''),
                     (''quota_timestamp'', jstr ''2023-06-15 12:00:00'')]]),
        (''error'', jstr '''')]
   \<and> API_BroadbandQuota noZones exampleAPI
        (answer 200 (quotaEnvelope (\<lambda>n. JNumber (Itoa n)) exampleQuotaWire))
       = Inr (map fst exampleQuotaWire)
   \<and> API_BroadbandQuota noZones exampleAPI
        (answer 200 (quotaEnvelope (\<lambda>n. jstr (Itoa n)) exampleQuotaWire)) = Inl QuotaDecodeError"
proof -
  have n: "answer 200 v (request exampleAPI ''/broadband/quota'') = Response StatusOK (Bytes (Some v))"
    for v by (simp add: answer_def StatusOK_def)
  have d: "quotaEnvelope (\<lambda>n. JNumber (Itoa n)) exampleQuotaWire =
     JObject
       [(''quota'',
         JArray
           [JObject [(''id'', jstr ''42''), (''quota_monthly'', JNumber ''1000''),
                     (''quota_remaining'', jstr ''250''),
                     (''quota_timestamp'', jstr ''2023-06-15 12:00:00'')]]),
        (''error'', jstr '''')]"
    by (simp add: quotaEnvelope_def exampleQuotaWire_def quotaJSON_def example_Itoa)
  have ne: "exampleQuotaWire \<noteq> []" by (simp add: exampleQuotaWire_def)
  note w = quota_monthly_number [of _ exampleAPI exampleQuotaWire noZones]
  have a: "API_BroadbandQuota noZones exampleAPI
        (answer 200 (quotaEnvelope (\<lambda>n. JNumber (Itoa n)) exampleQuotaWire))
       = Inr (map fst exampleQuotaWire)"
    using w [of "answer 200 (quotaEnvelope (\<lambda>n. JNumber (Itoa n)) exampleQuotaWire)"]
      n example_wireQuota by simp
  have b: "API_BroadbandQuota noZones exampleAPI
        (answer 200 (quotaEnvelope (\<lambda>n. jstr (Itoa n)) exampleQuotaWire)) = Inl QuotaDecodeError"
    using w [of "answer 200 (quotaEnvelope (\<lambda>n. jstr (Itoa n)) exampleQuotaWire)"] n ne
    by simp
  show ?thesis using d a b by (simp only: simp_thms)
qed

subsection \<open>Timestamps\<close>

lemma norm_in_range: "0 \<le> lo \<Longrightarrow> lo < base \<Longrightarrow> norm hi lo base = (hi, lo)"
  by (simp add: norm_def)

lemma Date_fields:
  assumes "1 \<le> month" "month \<le> 12" "0 \<le> hour" "hour < 24" "0 \<le> minute" "minute < 60"
    "0 \<le> sec" "sec < 60" "0 \<le> ns" "ns < 1000000000"
  shows "Date year month day hour minute sec ns l
         = \<lparr>unixSec = zoned l (civil year month day hour minute sec), nsec = ns, loc = l\<rparr>"
proof -
  have n: "norm year (month - 1) 12 = (year, month - 1)"
    "norm sec ns 1000000000 = (sec, ns)" "norm minute sec 60 = (minute, sec)"
    "norm hour minute 60 = (hour, minute)" "norm day hour 24 = (day, hour)"
    using assms by (simp_all add: norm_in_range)
  show ?thesis
    by (simp add: Date_def n civil_def zoned_def Let_def split: prod.splits)
qed

lemma zoned_utc: "zoned utcLoc u = u"
  by (simp add: zoned_def utcLoc_def)

lemma zoned_summer2023:
  assumes "britishTime2023 l" "1679796000 \<le> u" "u < 1698541200"
  shows "zoned l u = u - 3600"
proof -
  have "l u = (3600, 1679792400, 1698541200)"
    using assms by (simp add: britishTime2023_def)
  then show ?thesis using assms by (simp add: zoned_def)
qed

lemma zoned_winter2023:
  assumes "britishTime2023 l" "1667091600 \<le> u" "u < 1679792400"
  shows "zoned l u = u"
proof -
  have "l u = (0, 1667091600, 1679792400)"
    using assms by (simp add: britishTime2023_def)
  then show ?thesis by (simp add: zoned_def)
qed

lemma Format_offset:
  assumes "fst (l u) = offset"
  shows "Format \<lparr>unixSec = u, nsec = n, loc = l\<rparr>
         = (case absDate (u + offset + unixToInternal) of
              (year, month, day) \<Rightarrow>
                (case absClock (u + offset + unixToInternal) of
                   (hour, minute, sec) \<Rightarrow>
                     appendInt year 4 @ ''-'' @ appendInt month 2 @ ''-'' @ appendInt day 2
                     @ '' '' @ appendInt hour 2 @ '':'' @ appendInt minute 2 @ '':''
                     @ appendInt sec 2))"
  using assms by (cases "l u") (simp add: Format_def Let_def)

lemma london2023_british: "britishTime2023 london2023"
  by (simp add: britishTime2023_def london2023_def)

lemma parse_june: "parseLayout ''2023-06-15 12:00:00'' = Some (2023, 6, 15, 12, 0, 0, 0)"
  by code_simp

lemma parse_january: "parseLayout ''2023-01-15 12:00:00'' = Some (2023, 1, 15, 12, 0, 0, 0)"
  by code_simp

lemma civil_june: "civil 2023 6 15 12 0 0 = 1686830400"
  by code_simp

lemma civil_january: "civil 2023 1 15 12 0 0 = 1673784000"
  by code_simp

lemma format_june:
  "absDate (1686830400 + unixToInternal) = (2023, 6, 15)"
  "absClock (1686830400 + unixToInternal) = (12, 0, 0)"
  by code_simp+

lemma format_january:
  "absDate (1673784000 + unixToInternal) = (2023, 1, 15)"
  "absClock (1673784000 + unixToInternal) = (12, 0, 0)"
  by code_simp+

lemma appendInt_examples:
  "appendInt 2023 4 = ''2023''" "appendInt 6 2 = ''06''" "appendInt 15 2 = ''15''"
  "appendInt 12 2 = ''12''" "appendInt 0 2 = ''00''" "appendInt 1 2 = ''01''"
  by code_simp+

lemma UnmarshalJSON_loaded:
  "zoneinfo z ''Europe/London'' = Some l \<Longrightarrow>
   UnmarshalJSON z b = ParseInLocation (Trim b (CHR 0x22)) l"
  by (simp add: UnmarshalJSON_def LoadLocation_def)

lemma UnmarshalJSON_fallback:
  "zoneinfo z ''Europe/London'' = None \<Longrightarrow>
   UnmarshalJSON z b = ParseInLocation (Trim b (CHR 0x22)) (Local z)"
  by (simp add: UnmarshalJSON_def LoadLocation_def)

lemma june_in_london:
  assumes "britishTime2023 l"
  shows "ParseInLocation ''2023-06-15 12:00:00'' l
         = Inr \<lparr>unixSec = 1686826800, nsec = 0, loc = l\<rparr>"
    and "l 1686826800 = (3600, 1679792400, 1698541200)"
    and "Format \<lparr>unixSec = 1686826800, nsec = 0, loc = l\<rparr> = ''2023-06-15 12:00:00''"
proof -
  show o: "l 1686826800 = (3600, 1679792400, 1698541200)"
    using assms by (simp add: britishTime2023_def)
  show "ParseInLocation ''2023-06-15 12:00:00'' l
        = Inr \<lparr>unixSec = 1686826800, nsec = 0, loc = l\<rparr>"
    by (simp add: ParseInLocation_def parse_june Date_fields civil_june
        zoned_summer2023 [OF assms])
  show "Format \<lparr>unixSec = 1686826800, nsec = 0, loc = l\<rparr> = ''2023-06-15 12:00:00''"
    using format_june by (simp add: Format_offset [of l _ 3600] o appendInt_examples)
qed

lemma january_in_london:
  assumes "britishTime2023 l"
  shows "ParseInLocation ''2023-01-15 12:00:00'' l
         = Inr \<lparr>unixSec = 1673784000, nsec = 0, loc = l\<rparr>"
    and "l 1673784000 = (0, 1667091600, 1679792400)"
    and "Format \<lparr>unixSec = 1673784000, nsec = 0, loc = l\<rparr> = ''2023-01-15 12:00:00''"
proof -
  show o: "l 1673784000 = (0, 1667091600, 1679792400)"
    using assms by (simp add: britishTime2023_def)
  show "ParseInLocation ''2023-01-15 12:00:00'' l
        = Inr \<lparr>unixSec = 1673784000, nsec = 0, loc = l\<rparr>"
    by (simp add: ParseInLocation_def parse_january Date_fields civil_january
        zoned_winter2023 [OF assms])
  show "Format \<lparr>unixSec = 1673784000, nsec = 0, loc = l\<rparr> = ''2023-01-15 12:00:00''"
    using format_january by (simp add: Format_offset [of l _ 0] o appendInt_examples)
qed

lemma Trim_june: "Trim (quoted ''2023-06-15 12:00:00'') (CHR 0x22) = ''2023-06-15 12:00:00''"
  by (rule Trim_quoted) simp_all

lemma Trim_january: "Trim (quoted ''2023-01-15 12:00:00'') (CHR 0x22) = ''2023-01-15 12:00:00''"
  by (rule Trim_quoted) simp_all

text \<open>
  Claim C2. \<open>UnmarshalJSON\<close> parses the text between the quotes with the layout
  \<open>"2006-01-02 15:04:05"\<close> in the location \<open>Europe/London\<close> of the machine's time zone
  database, and in \<open>time.Local\<close> only when that location cannot be loaded. On a machine
  whose database has the United Kingdom's rules for 2023, \<open>"2023-06-15 12:00:00"\<close>
  parses to the instant 11:00:00 UTC of that day, at which the offset of the location is
  one hour and which the location shows as \<open>2023-06-15 12:00:00\<close>; and
  \<open>"2023-01-15 12:00:00"\<close> to the instant 12:00:00 UTC, at which the offset is zero.
\<close>

theorem timestamps_in_uk_time:
  "(zoneinfo z ''Europe/London'' = Some l \<longrightarrow>
      UnmarshalJSON z b = ParseInLocation (Trim b (CHR 0x22)) l)
   \<and> (zoneinfo z ''Europe/London'' = None \<longrightarrow>
      UnmarshalJSON z b = ParseInLocation (Trim b (CHR 0x22)) (Local z))
   \<and> (zoneinfo z ''Europe/London'' = Some l \<and> britishTime2023 l \<longrightarrow>
      UnmarshalJSON z (quoted ''2023-06-15 12:00:00'')
        = Inr \<lparr>unixSec = 1686826800, nsec = 0, loc = l\<rparr>
      \<and> fst (l 1686826800) = 3600
      \<and> Format \<lparr>unixSec = 1686826800, nsec = 0, loc = l\<rparr> = ''2023-06-15 12:00:00''
      \<and> UnmarshalJSON z (quoted ''2023-01-15 12:00:00'')
        = Inr \<lparr>unixSec = 1673784000, nsec = 0, loc = l\<rparr>
      \<and> fst (l 1673784000) = 0
      \<and> Format \<lparr>unixSec = 1673784000, nsec = 0, loc = l\<rparr> = ''2023-01-15 12:00:00'')"
proof (intro conjI impI; (elim conjE)?)
  assume "zoneinfo z ''Europe/London'' = Some l"
  then show "UnmarshalJSON z b = ParseInLocation (Trim b (CHR 0x22)) l"
    by (rule UnmarshalJSON_loaded)
next
  assume "zoneinfo z ''Europe/London'' = None"
  then show "UnmarshalJSON z b = ParseInLocation (Trim b (CHR 0x22)) (Local z)"
    by (rule UnmarshalJSON_fallback)
next
  assume z: "zoneinfo z ''Europe/London'' = Some l" and l: "britishTime2023 l"
  show "UnmarshalJSON z (quoted ''2023-06-15 12:00:00'')
        = Inr \<lparr>unixSec = 1686826800, nsec = 0, loc = l\<rparr>"
    by (simp only: UnmarshalJSON_loaded [OF z] Trim_june june_in_london(1) [OF l])
  show "fst (l 1686826800) = 3600"
    by (simp add: june_in_london(2) [OF l])
  show "Format \<lparr>unixSec = 1686826800, nsec = 0, loc = l\<rparr> = ''2023-06-15 12:00:00''"
    by (rule june_in_london(3) [OF l])
  show "UnmarshalJSON z (quoted ''2023-01-15 12:00:00'')
        = Inr \<lparr>unixSec = 1673784000, nsec = 0, loc = l\<rparr>"
    by (simp only: UnmarshalJSON_loaded [OF z] Trim_january january_in_london(1) [OF l])
  show "fst (l 1673784000) = 0"
    by (simp add: january_in_london(2) [OF l])
  show "Format \<lparr>unixSec = 1673784000, nsec = 0, loc = l\<rparr> = ''2023-01-15 12:00:00''"
    by (rule january_in_london(3) [OF l])
qed

theorem timestamps_in_uk_time_witness:
  "zoneinfo londonZones ''Europe/London'' = Some london2023
   \<and> britishTime2023 london2023
   \<and> UnmarshalJSON londonZones (quoted ''2023-06-15 12:00:00'')
       = Inr \<lparr>unixSec = 1686826800, nsec = 0, loc = london2023\<rparr>
   \<and> london2023 1686826800 = (3600, 1679792400, 1698541200)
   \<and> UnmarshalJSON londonZones (quoted ''2023-01-15 12:00:00'')
       = Inr \<lparr>unixSec = 1673784000, nsec = 0, loc = london2023\<rparr>
   \<and> london2023 1673784000 = (0, 1667091600, 1679792400)
   \<and> zoneinfo noZones ''Europe/London'' = None
   \<and> UnmarshalJSON noZones (quoted ''2023-06-15 12:00:00'')
       = Inr \<lparr>unixSec = 1686830400, nsec = 0, loc = utcLoc\<rparr>"
proof -
  have z: "zoneinfo londonZones ''Europe/London'' = Some london2023"
    by (simp add: londonZones_def)
  have n: "zoneinfo noZones ''Europe/London'' = None"
    by (simp add: noZones_def)
  have o: "london2023 1686826800 = (3600, 1679792400, 1698541200)"
    "london2023 1673784000 = (0, 1667091600, 1679792400)"
    by (simp_all add: london2023_def)
  note w = timestamps_in_uk_time [of londonZones london2023 "[]"]
  show ?thesis
    using z n o london2023_british w example_timestamp by blast
qed

subsection \<open>Parsing a timestamp and formatting it again\<close>

text \<open>The calendar: \<open>absDate\<close> and \<open>absClock\<close> undo the day count of \<open>Date\<close>.\<close>

lemma div_unique_int: "0 \<le> r \<Longrightarrow> r < k \<Longrightarrow> (k * q + r) div k = (q::int)"
  by (simp add: div_pos_pos_trivial)

lemma mod_zero_iff: "0 < x \<Longrightarrow> x \<le> k \<Longrightarrow> ((k * q + x) mod k = 0) = (x = (k::int))"
  by (cases "x = k") simp_all

text \<open>A year, as \<open>daysSinceEpoch\<close> takes it apart.\<close>

lemma year_split:
  fixes year :: int
  obtains a b c e :: int
  where "year = 400 * a + 100 * b + 4 * c + e + 1"
    and "0 \<le> b" "b < 4" "0 \<le> c" "c < 25" "0 \<le> e" "e < 4"
    and "daysSinceEpoch year = 146097 * a + 36524 * b + 1461 * c + 365 * e"
proof -
  define y where "y = year - 1"
  define a where "a = y div 400"
  define r where "r = y - 400 * a"
  define b where "b = r div 100"
  define r2 where "r2 = r - 100 * b"
  define c where "c = r2 div 4"
  define e where "e = r2 - 4 * c"
  have r: "r = y mod 400" unfolding r_def a_def by (simp add: minus_mult_div_eq_mod)
  have r2: "r2 = r mod 100" unfolding r2_def b_def by (simp add: minus_mult_div_eq_mod)
  have e: "e = r2 mod 4" unfolding e_def c_def by (simp add: minus_mult_div_eq_mod)
  have rb: "0 \<le> r" "r < 400" unfolding r by simp_all
  have r2b: "0 \<le> r2" "r2 < 100" unfolding r2 by simp_all
  have eb: "0 \<le> e" "e < 4" unfolding e by simp_all
  have bb: "0 \<le> b" "b < 4" using rb r2b unfolding r2_def by linarith+
  have cb: "0 \<le> c" "c < 25" using r2b eb unfolding e_def by linarith+
  have yr: "year = 400 * a + 100 * b + 4 * c + e + 1"
    unfolding e_def r2_def r_def y_def by simp
  have ds: "daysSinceEpoch year = 146097 * a + 36524 * b + 1461 * c + 365 * e"
    unfolding daysSinceEpoch_def Let_def y_def [symmetric] a_def [symmetric] r_def [symmetric]
      b_def [symmetric] r2_def [symmetric] c_def [symmetric] e_def [symmetric]
    by simp
  show thesis
    using that [OF yr bb cb eb ds] .
qed

lemma leap_split:
  fixes a b c e :: int
  assumes "0 \<le> b" "b < 4" "0 \<le> c" "c < 25" "0 \<le> e" "e < 4"
  shows "isLeap (400 * a + 100 * b + 4 * c + e + 1) \<longleftrightarrow> e = 3 \<and> (c < 24 \<or> b = 3)"
proof -
  let ?y = "400 * a + 100 * b + 4 * c + e + 1"
  have y4: "?y = 4 * (100 * a + 25 * b + c) + (e + 1)" by simp
  have y100: "?y = 100 * (4 * a + b) + (4 * c + e + 1)" by simp
  have y400: "?y = 400 * a + (100 * b + 4 * c + e + 1)" by simp
  have m4: "(?y mod 4 = 0) = (e + 1 = 4)"
    by (subst y4, rule mod_zero_iff) (use assms in linarith)+
  have m100: "(?y mod 100 = 0) = (4 * c + e + 1 = 100)"
    by (subst y100, rule mod_zero_iff) (use assms in linarith)+
  have m400: "(?y mod 400 = 0) = (100 * b + 4 * c + e + 1 = 400)"
    by (subst y400, rule mod_zero_iff) (use assms in linarith)+
  show ?thesis
    unfolding isLeap_def m4 m100 m400 using assms by auto
qed

text \<open>The day of the epoch, as \<open>absDate\<close> takes it apart.\<close>

lemma day_split:
  fixes a b c e yd :: int
  assumes "0 \<le> b" "b < 4" "0 \<le> c" "c < 25" "0 \<le> e" "e < 4" "0 \<le> yd"
    and "yd < 365 + (if e = 3 \<and> (c < 24 \<or> b = 3) then 1 else 0)"
    and D_def: "D = 146097 * a + 36524 * b + 1461 * c + 365 * e + yd"
    and n400_def: "n400 = D div 146097"
    and d1_def: "d1 = D - 146097 * n400"
    and n100_def: "n100 = d1 div 36524 - (d1 div 36524) div 4"
    and d2_def: "d2 = d1 - 36524 * n100"
    and n4_def: "n4 = d2 div 1461"
    and d3_def: "d3 = d2 - 1461 * n4"
    and n1_def: "n1 = d3 div 365 - (d3 div 365) div 4"
  shows "n400 = a" "n100 = b" "n4 = c" "n1 = e" "d3 - 365 * n1 = yd"
proof -
  have yd365: "yd \<le> 365" using assms(8) by (simp split: if_splits)
  have r1: "36524 * b + 1461 * c + 365 * e + yd < 146097"
    using assms(1-8) by (simp split: if_splits)
  have "D = 146097 * a + (36524 * b + 1461 * c + 365 * e + yd)" by (simp add: D_def)
  then have n400: "n400 = a"
    unfolding n400_def using r1 assms(1-7) by (simp add: div_unique_int)
  then have d1: "d1 = 36524 * b + (1461 * c + 365 * e + yd)"
    by (simp add: d1_def D_def)
  have n100: "n100 = b"
  proof (cases "1461 * c + 365 * e + yd < 36524")
    case True
    then have "d1 div 36524 = b"
      unfolding d1 using assms(1-7) by (simp add: div_unique_int)
    then show ?thesis
      unfolding n100_def using assms(1,2) by simp
  next
    case False
    then have "b = 3 \<and> c = 24 \<and> e = 3 \<and> yd = 365"
      using assms(1-8) by (simp split: if_splits)
    then show ?thesis
      unfolding n100_def d1 by simp
  qed
  then have d2: "d2 = 1461 * c + (365 * e + yd)"
    by (simp add: d2_def d1)
  have r3: "365 * e + yd < 1461"
    using assms(5-8) by (simp split: if_splits)
  have n4: "n4 = c"
    unfolding n4_def d2 using r3 assms(5-7) by (simp add: div_unique_int)
  then have d3: "d3 = 365 * e + yd"
    by (simp add: d3_def d2)
  have n1: "n1 = e"
  proof (cases "yd < 365")
    case True
    then have "d3 div 365 = e"
      unfolding d3 using assms(7) by (simp add: div_unique_int)
    then show ?thesis
      unfolding n1_def using assms(5,6) by simp
  next
    case False
    then have "e = 3 \<and> yd = 365"
      using assms(8) yd365 by (simp split: if_splits)
    then show ?thesis
      unfolding n1_def d3 by simp
  qed
  show "n400 = a" "n100 = b" "n4 = c" "n1 = e" "d3 - 365 * n1 = yd"
    using n400 n100 n4 n1 d3 by simp_all
qed

lemma daysBefore_nth:
  "daysBefore ! 0 = 0" "daysBefore ! 1 = 31" "daysBefore ! Suc 0 = 31" "daysBefore ! 2 = 59"
  "daysBefore ! 3 = 90" "daysBefore ! 4 = 120" "daysBefore ! 5 = 151" "daysBefore ! 6 = 181"
  "daysBefore ! 7 = 212" "daysBefore ! 8 = 243" "daysBefore ! 9 = 273" "daysBefore ! 10 = 304"
  "daysBefore ! 11 = 334" "daysBefore ! 12 = 365"
  by (simp_all add: daysBefore_def)

lemma month_cases:
  fixes m :: int
  assumes "1 \<le> m" "m \<le> 12"
  shows "m = 1 \<or> m = 2 \<or> m = 3 \<or> m = 4 \<or> m = 5 \<or> m = 6 \<or> m = 7 \<or> m = 8
         \<or> m = 9 \<or> m = 10 \<or> m = 11 \<or> m = 12"
  using assms by arith

lemma yday_bounds:
  assumes "1 \<le> m" "m \<le> 12" "1 \<le> d" "d \<le> daysIn m year"
  shows "0 \<le> daysBefore ! nat (m - 1) + (if isLeap year \<and> m \<ge> 3 then 1 else 0) + (d - 1)"
    and "daysBefore ! nat (m - 1) + (if isLeap year \<and> m \<ge> 3 then 1 else 0) + (d - 1)
         < 365 + (if isLeap year then 1 else 0)"
  using month_cases [OF assms(1,2)] assms(3,4)
  by (auto simp: daysIn_def daysBefore_nth)

lemma monthDay_yday:
  assumes "1 \<le> m" "m \<le> 12" "1 \<le> d" "d \<le> daysIn m year"
  shows "monthDay (isLeap year)
           (daysBefore ! nat (m - 1) + (if isLeap year \<and> m \<ge> 3 then 1 else 0) + (d - 1))
         = (m, d)"
proof -
  consider (1) "m = 1" | (2) "m = 2" | (3) "m = 3" | (4) "m = 4" | (5) "m = 5" | (6) "m = 6"
    | (7) "m = 7" | (8) "m = 8" | (9) "m = 9" | (10) "m = 10" | (11) "m = 11" | (12) "m = 12"
    using month_cases [OF assms(1,2)] by blast
  then show ?thesis
  proof cases
  case 1
  then have "(d - 1) div 31 = 0" using assms(3,4) by (simp add: daysIn_def daysBefore_nth)
  then show ?thesis
    using 1 assms(3,4) by (simp add: monthDay_def daysIn_def daysBefore_nth Let_def)
next
  case 2
  then have "(31 + (d - 1)) div 31 = 1"
    using assms(3,4) by (simp add: daysIn_def daysBefore_nth split: if_splits)
  then show ?thesis
    using 2 assms(3,4)
    by (auto simp: monthDay_def daysIn_def daysBefore_nth Let_def split: if_splits)
next
  case 3
  then have "(59 + (d - 1)) div 31 = 1 \<or> (59 + (d - 1)) div 31 = 2"
    using assms(3,4) by (simp add: daysIn_def daysBefore_nth) arith
  then show ?thesis
    using 3 assms(3,4)
    by (auto simp: monthDay_def daysIn_def daysBefore_nth Let_def split: if_splits)
next
  case 4
  then have "(90 + (d - 1)) div 31 = 2 \<or> (90 + (d - 1)) div 31 = 3"
    using assms(3,4) by (simp add: daysIn_def daysBefore_nth) arith
  then show ?thesis
    using 4 assms(3,4)
    by (auto simp: monthDay_def daysIn_def daysBefore_nth Let_def split: if_splits)
next
  case 5
  then have "(120 + (d - 1)) div 31 = 3 \<or> (120 + (d - 1)) div 31 = 4"
    using assms(3,4) by (simp add: daysIn_def daysBefore_nth) arith
  then show ?thesis
    using 5 assms(3,4)
    by (auto simp: monthDay_def daysIn_def daysBefore_nth Let_def split: if_splits)
next
  case 6
  then have "(151 + (d - 1)) div 31 = 4 \<or> (151 + (d - 1)) div 31 = 5"
    using assms(3,4) by (simp add: daysIn_def daysBefore_nth) arith
  then show ?thesis
    using 6 assms(3,4)
    by (auto simp: monthDay_def daysIn_def daysBefore_nth Let_def split: if_splits)
next
  case 7
  then have "(181 + (d - 1)) div 31 = 5 \<or> (181 + (d - 1)) div 31 = 6"
    using assms(3,4) by (simp add: daysIn_def daysBefore_nth) arith
  then show ?thesis
    using 7 assms(3,4)
    by (auto simp: monthDay_def daysIn_def daysBefore_nth Let_def split: if_splits)
next
  case 8
  then have "(212 + (d - 1)) div 31 = 6 \<or> (212 + (d - 1)) div 31 = 7"
    using assms(3,4) by (simp add: daysIn_def daysBefore_nth) arith
  then show ?thesis
    using 8 assms(3,4)
    by (auto simp: monthDay_def daysIn_def daysBefore_nth Let_def split: if_splits)
next
  case 9
  then have "(243 + (d - 1)) div 31 = 7 \<or> (243 + (d - 1)) div 31 = 8"
    using assms(3,4) by (simp add: daysIn_def daysBefore_nth) arith
  then show ?thesis
    using 9 assms(3,4)
    by (auto simp: monthDay_def daysIn_def daysBefore_nth Let_def split: if_splits)
next
  case 10
  then have "(273 + (d - 1)) div 31 = 8 \<or> (273 + (d - 1)) div 31 = 9"
    using assms(3,4) by (simp add: daysIn_def daysBefore_nth) arith
  then show ?thesis
    using 10 assms(3,4)
    by (auto simp: monthDay_def daysIn_def daysBefore_nth Let_def split: if_splits)
next
  case 11
  then have "(304 + (d - 1)) div 31 = 9 \<or> (304 + (d - 1)) div 31 = 10"
    using assms(3,4) by (simp add: daysIn_def daysBefore_nth) arith
  then show ?thesis
    using 11 assms(3,4)
    by (auto simp: monthDay_def daysIn_def daysBefore_nth Let_def split: if_splits)
next
  case 12
  then have "(334 + (d - 1)) div 31 = 10 \<or> (334 + (d - 1)) div 31 = 11"
    using assms(3,4) by (simp add: daysIn_def daysBefore_nth) arith
  then show ?thesis
    using 12 assms(3,4)
    by (auto simp: monthDay_def daysIn_def daysBefore_nth Let_def split: if_splits)
qed
qed

lemma yearDay_days:
  fixes a b c e yd :: int
  assumes "0 \<le> b" "b < 4" "0 \<le> c" "c < 25" "0 \<le> e" "e < 4" "0 \<le> yd"
    and "yd < 365 + (if e = 3 \<and> (c < 24 \<or> b = 3) then 1 else 0)"
  shows "yearDay (146097 * a + 36524 * b + 1461 * c + 365 * e + yd)
         = (400 * a + 100 * b + 4 * c + e + 1, yd)"
proof -
  define D where "D = 146097 * a + 36524 * b + 1461 * c + 365 * e + yd"
  define n400 where "n400 = D div 146097"
  define d1 where "d1 = D - 146097 * n400"
  define n100 where "n100 = d1 div 36524 - (d1 div 36524) div 4"
  define d2 where "d2 = d1 - 36524 * n100"
  define n4 where "n4 = d2 div 1461"
  define d3 where "d3 = d2 - 1461 * n4"
  define n1 where "n1 = d3 div 365 - (d3 div 365) div 4"
  have "yearDay D = (400 * n400 + 100 * n100 + 4 * n4 + n1 + 1, d3 - 365 * n1)"
    by (simp only: yearDay_def Let_def n1_def d3_def n4_def d2_def n100_def d1_def n400_def)
  also have "\<dots> = (400 * a + 100 * b + 4 * c + e + 1, yd)"
    using day_split [OF assms D_def n400_def d1_def n100_def d2_def n4_def d3_def n1_def]
    by simp
  finally show ?thesis by (simp only: D_def)
qed

lemma absDate_alt:
  "absDate absec =
     (case yearDay (absec div secondsPerDay) of
        (year, yday) \<Rightarrow> (case monthDay (isLeap year) yday of (m, d) \<Rightarrow> (year, m, d)))"
proof -
  define D where "D = absec div secondsPerDay"
  define n400 where "n400 = D div 146097"
  define d1 where "d1 = D - 146097 * n400"
  define n100 where "n100 = d1 div 36524 - (d1 div 36524) div 4"
  define d2 where "d2 = d1 - 36524 * n100"
  define n4 where "n4 = d2 div 1461"
  define d3 where "d3 = d2 - 1461 * n4"
  define n1 where "n1 = d3 div 365 - (d3 div 365) div 4"
  define yday where "yday = d3 - 365 * n1"
  define year where "year = 400 * n400 + 100 * n100 + 4 * n4 + n1 + 1"
  note defs = year_def yday_def n1_def d3_def n4_def d2_def n100_def d1_def n400_def D_def
  have yd: "yearDay (absec div secondsPerDay) = (year, yday)"
    by (simp only: yearDay_def Let_def defs)
  have "absDate absec =
          (if isLeap year \<and> yday = 31 + 29 - 1 then (year, 2, 29)
           else (let day = (if isLeap year \<and> yday > 31 + 29 - 1 then yday - 1 else yday);
                     month = day div 31;
                     end = daysBefore ! nat (month + 1);
                     (month1, begin) =
                       (if day \<ge> end then (month + 1, end)
                        else (month, daysBefore ! nat month))
                 in (year, month1 + 1, day - begin + 1)))"
    by (simp only: absDate_def Let_def defs)
  also have "\<dots> = (case monthDay (isLeap year) yday of (m, d) \<Rightarrow> (year, m, d))"
    by (simp add: monthDay_def Let_def split: prod.splits)
  finally show ?thesis
    by (simp only: yd prod.case)
qed

lemma absDate_civil:
  assumes "1 \<le> month" "month \<le> 12" "1 \<le> day" "day \<le> daysIn month year"
    and "0 \<le> tod" "tod < 86400"
  shows "absDate ((daysSinceEpoch year + daysBefore ! nat (month - 1)
                    + (if isLeap year \<and> month \<ge> 3 then 1 else 0) + (day - 1)) * secondsPerDay
                  + tod)
         = (year, month, day)"
proof -
  obtain a b c e :: int
    where yr: "year = 400 * a + 100 * b + 4 * c + e + 1"
      and bd: "0 \<le> b" "b < 4" "0 \<le> c" "c < 25" "0 \<le> e" "e < 4"
      and ds: "daysSinceEpoch year = 146097 * a + 36524 * b + 1461 * c + 365 * e"
    by (rule year_split)
  define yd where
    "yd = daysBefore ! nat (month - 1) + (if isLeap year \<and> month \<ge> 3 then 1 else 0) + (day - 1)"
  have leap: "isLeap year \<longleftrightarrow> e = 3 \<and> (c < 24 \<or> b = 3)"
    unfolding yr by (rule leap_split [OF bd])
  have yd0: "0 \<le> yd" and yd1: "yd < 365 + (if isLeap year then 1 else 0)"
    unfolding yd_def by (rule yday_bounds [OF assms(1-4)])+
  have yd2: "yd < 365 + (if e = 3 \<and> (c < 24 \<or> b = 3) then 1 else 0)"
    using yd1 leap by simp
  have days: "daysSinceEpoch year + daysBefore ! nat (month - 1)
              + (if isLeap year \<and> month \<ge> 3 then 1 else 0) + (day - 1)
              = 146097 * a + 36524 * b + 1461 * c + 365 * e + yd"
    by (simp add: ds yd_def)
  have d: "((146097 * a + 36524 * b + 1461 * c + 365 * e + yd) * secondsPerDay + tod)
           div secondsPerDay = 146097 * a + 36524 * b + 1461 * c + 365 * e + yd"
    using assms(5,6) div_unique_int [of tod 86400]
    by (simp add: secondsPerDay_def mult.commute)
  have yday: "yearDay (146097 * a + 36524 * b + 1461 * c + 365 * e + yd) = (year, yd)"
    unfolding yr by (rule yearDay_days [OF bd yd0 yd2])
  have md: "monthDay (isLeap year) yd = (month, day)"
    unfolding yd_def by (rule monthDay_yday [OF assms(1-4)])
  show ?thesis
    unfolding days absDate_alt d yday by (simp add: md)
qed

lemma absClock_civil:
  assumes "0 \<le> hour" "hour < 24" "0 \<le> minute" "minute < 60" "0 \<le> sec" "sec < 60"
  shows "absClock (D * secondsPerDay + (hour * 3600 + minute * 60 + sec)) = (hour, minute, sec)"
proof -
  let ?tod = "hour * 3600 + minute * 60 + sec"
  have t: "0 \<le> ?tod" "?tod < 86400" using assms by linarith+
  have m: "(D * secondsPerDay + ?tod) mod secondsPerDay = ?tod"
    using t by (simp add: secondsPerDay_def)
  have h: "?tod div 3600 = hour"
    using div_unique_int [of "minute * 60 + sec" 3600 hour] assms by (simp add: add.assoc)
  have mi: "(minute * 60 + sec) div 60 = minute"
    using div_unique_int [of sec 60 minute] assms by (simp add: mult.commute)
  show ?thesis
    unfolding absClock_def Let_def m h by (simp add: mi)
qed

text \<open>The digits: \<open>appendInt\<close> writes what \<open>atoi\<close> and \<open>getnum\<close> read.\<close>

lemma digit_cases:
  assumes "isDigitChar c"
  obtains p where "p < 10" "c = digitChar p" "digitVal c = int p"
proof -
  define p where "p = (of_char c :: nat) - 48"
  have p: "p < 10" and o: "(of_char c :: nat) = 48 + p"
    using assms unfolding isDigitChar_def p_def by arith+
  have "char_of (of_char c :: nat) = c" by simp
  then have c: "c = digitChar p" by (simp add: digitChar_def o)
  show thesis
    by (rule that [OF p c]) (simp add: digitVal_def o)
qed

lemma digit_not_layout:
  "isDigitChar c \<Longrightarrow> c \<noteq> CHR ''-'' \<and> c \<noteq> CHR ''+'' \<and> c \<noteq> CHR '' '' \<and> c \<noteq> CHR 0x22"
  by (auto simp: isDigitChar_def)

lemma decimal_digit: "q < 10 \<Longrightarrow> decimal q = [digitChar q]"
  by (subst decimal.simps) simp

lemma decimal_snoc: "q < 10 \<Longrightarrow> 0 < n \<Longrightarrow> decimal (10 * n + q) = decimal n @ [digitChar q]"
  by (subst decimal.simps) simp

lemma appendInt_nat:
  "appendInt (int n) w = replicate (w - length (decimal n)) (CHR ''0'') @ decimal n"
  by (simp add: appendInt_def Let_def)

lemma appendInt_digit: "q < 10 \<Longrightarrow> appendInt (int q) (Suc w) = replicate w (CHR ''0'') @ [digitChar q]"
  by (simp add: appendInt_nat decimal_digit)

lemma appendInt_snoc:
  assumes "q < 10" "0 < w"
  shows "appendInt (int (10 * n + q)) (Suc w) = appendInt (int n) w @ [digitChar q]"
proof (cases "n = 0")
  case True
  obtain v where w: "w = Suc v" using assms(2) by (cases w) auto
  have z: "digitChar 0 = CHR ''0''" by code_simp
  show ?thesis
    using assms(1) appendInt_digit [of q w] appendInt_digit [of 0 v]
    by (simp add: True w z replicate_append_same)
next
  case False
  then show ?thesis
    unfolding appendInt_nat using assms(1) by (simp add: decimal_snoc)
qed

lemma appendInt_two:
  assumes "isDigitChar a" "isDigitChar b"
  shows "appendInt (digitVal a * 10 + digitVal b) 2 = [a, b]"
proof -
  obtain p where p: "p < 10" "a = digitChar p" "digitVal a = int p"
    using assms(1) by (rule digit_cases)
  obtain q where q: "q < 10" "b = digitChar q" "digitVal b = int q"
    using assms(2) by (rule digit_cases)
  have "digitVal a * 10 + digitVal b = int (10 * p + q)" by (simp add: p(3) q(3))
  moreover have "appendInt (int (10 * p + q)) (Suc 1) = appendInt (int p) 1 @ [digitChar q]"
    by (rule appendInt_snoc) (simp_all add: q)
  moreover have "appendInt (int p) (Suc 0) = [digitChar p]"
    using appendInt_digit [of p 0] p by simp
  ultimately show ?thesis by (simp add: p q numeral_2_eq_2)
qed

lemma appendInt_four:
  assumes "isDigitChar a" "isDigitChar b" "isDigitChar c" "isDigitChar d"
  shows "appendInt (((digitVal a * 10 + digitVal b) * 10 + digitVal c) * 10 + digitVal d) 4
         = [a, b, c, d]"
proof -
  obtain p where p: "p < 10" "a = digitChar p" "digitVal a = int p"
    using assms(1) by (rule digit_cases)
  obtain q where q: "q < 10" "b = digitChar q" "digitVal b = int q"
    using assms(2) by (rule digit_cases)
  obtain r where r: "r < 10" "c = digitChar r" "digitVal c = int r"
    using assms(3) by (rule digit_cases)
  obtain u where u: "u < 10" "d = digitChar u" "digitVal d = int u"
    using assms(4) by (rule digit_cases)
  have v: "((digitVal a * 10 + digitVal b) * 10 + digitVal c) * 10 + digitVal d
           = int (10 * (10 * (10 * p + q) + r) + u)"
    by (simp add: p(3) q(3) r(3) u(3))
  have 1: "appendInt (int p) (Suc 0) = [digitChar p]"
    using appendInt_digit [of p 0] p by simp
  have 2: "appendInt (int (10 * p + q)) (Suc (Suc 0)) = appendInt (int p) (Suc 0) @ [digitChar q]"
    by (rule appendInt_snoc) (simp_all add: q)
  have 3: "appendInt (int (10 * (10 * p + q) + r)) (Suc (Suc (Suc 0)))
           = appendInt (int (10 * p + q)) (Suc (Suc 0)) @ [digitChar r]"
    by (rule appendInt_snoc) (simp_all add: r)
  have 4: "appendInt (int (10 * (10 * (10 * p + q) + r) + u)) (Suc (Suc (Suc (Suc 0))))
           = appendInt (int (10 * (10 * p + q) + r)) (Suc (Suc (Suc 0))) @ [digitChar u]"
    by (rule appendInt_snoc) (simp_all add: u)
  have n: "(4::nat) = Suc (Suc (Suc (Suc 0)))" by simp
  show ?thesis
    unfolding v n 4 3 2 1 by (simp add: p q r u)
qed

lemma digitVal_bounds: "isDigitChar c \<Longrightarrow> 0 \<le> digitVal c \<and> digitVal c \<le> 9"
  unfolding isDigitChar_def digitVal_def by arith

lemma atoi_four:
  assumes "isDigitChar a" "isDigitChar b" "isDigitChar c" "isDigitChar d"
  shows "atoi [a, b, c, d]
         = Some (((digitVal a * 10 + digitVal b) * 10 + digitVal c) * 10 + digitVal d)"
proof -
  note bs = digitVal_bounds [OF assms(1)] digitVal_bounds [OF assms(2)]
    digitVal_bounds [OF assms(3)] digitVal_bounds [OF assms(4)]
  have 4: "leadingInt (((digitVal a * 10 + digitVal b) * 10 + digitVal c) * 10 + digitVal d) []
           = Some (((digitVal a * 10 + digitVal b) * 10 + digitVal c) * 10 + digitVal d, [])"
    by simp
  have 3: "leadingInt ((digitVal a * 10 + digitVal b) * 10 + digitVal c) [d]
           = Some (((digitVal a * 10 + digitVal b) * 10 + digitVal c) * 10 + digitVal d, [])"
    using bs assms by (simp add: Let_def)
  have 2: "leadingInt (digitVal a * 10 + digitVal b) [c, d]
           = Some (((digitVal a * 10 + digitVal b) * 10 + digitVal c) * 10 + digitVal d, [])"
    using bs assms 3 by (simp add: Let_def)
  have 1: "leadingInt (digitVal a) [b, c, d]
           = Some (((digitVal a * 10 + digitVal b) * 10 + digitVal c) * 10 + digitVal d, [])"
    using bs assms 2 by (simp add: Let_def)
  have 0: "leadingInt 0 [a, b, c, d]
           = Some (((digitVal a * 10 + digitVal b) * 10 + digitVal c) * 10 + digitVal d, [])"
    using bs assms 1 by (simp add: Let_def)
  show ?thesis
    using digit_not_layout [OF assms(1)] by (simp del: leadingInt.simps add: atoi_def 0)
qed

lemma getnum_two:
  "isDigitChar a \<Longrightarrow> isDigitChar b \<Longrightarrow>
   getnum (a # b # v) fixed = Some (digitVal a * 10 + digitVal b, v)"
  by (simp add: getnum_def isDigit_def)

lemma skip_char: "p \<noteq> CHR '' '' \<Longrightarrow> skip (p # v) [p] = Some v"
  by simp

lemma skip_space: "isDigitChar h \<Longrightarrow> skip (CHR '' '' # h # v) '' '' = Some (h # v)"
  using digit_not_layout [of h] by (simp add: cutspace_def)

lemma parse_shaped:
  assumes "isDigitChar y1" "isDigitChar y2" "isDigitChar y3" "isDigitChar y4"
    and "isDigitChar m1" "isDigitChar m2" "isDigitChar d1" "isDigitChar d2"
    and "isDigitChar h1" "isDigitChar h2" "isDigitChar n1" "isDigitChar n2"
    and "isDigitChar s1" "isDigitChar s2"
    and "year = ((digitVal y1 * 10 + digitVal y2) * 10 + digitVal y3) * 10 + digitVal y4"
    and "month = digitVal m1 * 10 + digitVal m2"
    and "day = digitVal d1 * 10 + digitVal d2"
    and "hour = digitVal h1 * 10 + digitVal h2"
    and "minute = digitVal n1 * 10 + digitVal n2"
    and "sec = digitVal s1 * 10 + digitVal s2"
  shows "parseLayout [y1, y2, y3, y4, CHR ''-'', m1, m2, CHR ''-'', d1, d2, CHR '' '',
                      h1, h2, CHR '':'', n1, n2, CHR '':'', s1, s2]
         = (if 1 \<le> month \<and> month \<le> 12 \<and> hour < 24 \<and> minute < 60 \<and> sec < 60
               \<and> 1 \<le> day \<and> day \<le> daysIn month year
            then Some (year, month, day, hour, minute, sec, 0) else None)"
proof -
  have y: "atoi [y1, y2, y3, y4] = Some year"
    unfolding assms(15) by (rule atoi_four [OF assms(1-4)])
  have g: "\<And>v fixed. getnum (m1 # m2 # v) fixed = Some (month, v)"
    "\<And>v fixed. getnum (d1 # d2 # v) fixed = Some (day, v)"
    "\<And>v fixed. getnum (h1 # h2 # v) fixed = Some (hour, v)"
    "\<And>v fixed. getnum (n1 # n2 # v) fixed = Some (minute, v)"
    "\<And>v fixed. getnum (s1 # s2 # v) fixed = Some (sec, v)"
    unfolding assms(16-20) using assms(5-14) by (simp_all add: getnum_two)
  have sk: "\<And>v. skip (CHR ''-'' # v) ''-'' = Some v" "\<And>v. skip (CHR '':'' # v) '':'' = Some v"
    "\<And>v. skip (CHR '' '' # h1 # v) '' '' = Some (h1 # v)"
    using skip_space [OF assms(9)] by (simp_all del: skip.simps add: skip_char)
  have nn: "0 \<le> hour" "0 \<le> minute" "0 \<le> sec"
    unfolding assms(18-20)
    using digitVal_bounds [OF assms(9)] digitVal_bounds [OF assms(10)]
      digitVal_bounds [OF assms(11)] digitVal_bounds [OF assms(12)]
      digitVal_bounds [OF assms(13)] digitVal_bounds [OF assms(14)]
    by simp_all
  show ?thesis
    using nn assms(1)
    by (simp del: skip.simps add: parseLayout_def isDigit_def y g sk)
qed

text \<open>The round trip: a string written as the layout is, parsed and formatted.\<close>

lemma Format_civil:
  assumes "1 \<le> month" "month \<le> 12" "1 \<le> day" "day \<le> daysIn month year"
    and "0 \<le> hour" "hour < 24" "0 \<le> minute" "minute < 60" "0 \<le> sec" "sec < 60"
    and "u + fst (l u) = civil year month day hour minute sec"
  shows "Format \<lparr>unixSec = u, nsec = n, loc = l\<rparr>
         = appendInt year 4 @ ''-'' @ appendInt month 2 @ ''-'' @ appendInt day 2 @ '' ''
           @ appendInt hour 2 @ '':'' @ appendInt minute 2 @ '':'' @ appendInt sec 2"
proof -
  let ?tod = "hour * 3600 + minute * 60 + sec"
  let ?days = "daysSinceEpoch year + daysBefore ! nat (month - 1)
               + (if isLeap year \<and> month \<ge> 3 then 1 else 0) + (day - 1)"
  have t: "0 \<le> ?tod" "?tod < 86400" using assms(5-10) by linarith+
  have a: "u + fst (l u) + unixToInternal = ?days * secondsPerDay + ?tod"
    unfolding assms(11) by (simp add: civil_def)
  have d: "absDate (?days * secondsPerDay + ?tod) = (year, month, day)"
    by (rule absDate_civil [OF assms(1-4) t])
  have c: "absClock (?days * secondsPerDay + ?tod) = (hour, minute, sec)"
    by (rule absClock_civil [OF assms(5-10)])
  show ?thesis
    unfolding Format_offset [of l u "fst (l u)" n, OF refl] a d c by simp
qed

lemma shaped_nth:
  assumes "layoutShaped s"
  shows "s = [s ! 0, s ! 1, s ! 2, s ! 3, CHR ''-'', s ! 5, s ! 6, CHR ''-'', s ! 8, s ! 9,
              CHR '' '', s ! 11, s ! 12, CHR '':'', s ! 14, s ! 15, CHR '':'', s ! 17, s ! 18]"
    and "isDigitChar (s ! 0)" "isDigitChar (s ! 1)" "isDigitChar (s ! 2)"
    "isDigitChar (s ! 3)" "isDigitChar (s ! 5)" "isDigitChar (s ! 6)" "isDigitChar (s ! 8)"
    "isDigitChar (s ! 9)" "isDigitChar (s ! 11)" "isDigitChar (s ! 12)"
    "isDigitChar (s ! 14)" "isDigitChar (s ! 15)" "isDigitChar (s ! 17)"
    "isDigitChar (s ! 18)"
proof -
  have len: "length s = 19" using assms by (simp add: layoutShaped_def)
  have u: "[0..<19] = [0, 1, 2, 3, 4, 5, 6, 7, 8, 9, 10, 11, 12, 13, 14, 15, 16, 17, 18 :: nat]"
    by code_simp
  have "map ((!) s) [0..<length s] = s" by (rule map_nth)
  then have e: "[s ! 0, s ! 1, s ! 2, s ! 3, s ! 4, s ! 5, s ! 6, s ! 7, s ! 8, s ! 9,
      s ! 10, s ! 11, s ! 12, s ! 13, s ! 14, s ! 15, s ! 16, s ! 17, s ! 18] = s"
    unfolding len u by simp
  have seps: "s ! 4 = CHR ''-''" "s ! 7 = CHR ''-''" "s ! 10 = CHR '' ''"
    "s ! 13 = CHR '':''" "s ! 16 = CHR '':''"
    using assms by (simp_all add: layoutShaped_def)
  show "s = [s ! 0, s ! 1, s ! 2, s ! 3, CHR ''-'', s ! 5, s ! 6, CHR ''-'', s ! 8, s ! 9,
             CHR '' '', s ! 11, s ! 12, CHR '':'', s ! 14, s ! 15, CHR '':'', s ! 17, s ! 18]"
    using e unfolding seps by (rule sym)
  show "isDigitChar (s ! 0)" "isDigitChar (s ! 1)" "isDigitChar (s ! 2)"
    "isDigitChar (s ! 3)" "isDigitChar (s ! 5)" "isDigitChar (s ! 6)" "isDigitChar (s ! 8)"
    "isDigitChar (s ! 9)" "isDigitChar (s ! 11)" "isDigitChar (s ! 12)"
    "isDigitChar (s ! 14)" "isDigitChar (s ! 15)" "isDigitChar (s ! 17)"
    "isDigitChar (s ! 18)"
    using assms by (simp_all add: layoutShaped_def)
qed

lemma shaped_parse:
  assumes "layoutShaped s" "parseLayout s = Some r"
  obtains year month day hour minute sec
  where "r = (year, month, day, hour, minute, sec, 0)"
    and "1 \<le> month" "month \<le> 12" "1 \<le> day" "day \<le> daysIn month year"
    and "0 \<le> hour" "hour < 24" "0 \<le> minute" "minute < 60" "0 \<le> sec" "sec < 60"
    and "appendInt year 4 @ ''-'' @ appendInt month 2 @ ''-'' @ appendInt day 2 @ '' ''
         @ appendInt hour 2 @ '':'' @ appendInt minute 2 @ '':'' @ appendInt sec 2 = s"
proof -
  note l = shaped_nth [OF assms(1)]
  define year where
    "year = ((digitVal (s ! 0) * 10 + digitVal (s ! 1)) * 10 + digitVal (s ! 2)) * 10
            + digitVal (s ! 3)"
  define month where "month = digitVal (s ! 5) * 10 + digitVal (s ! 6)"
  define day where "day = digitVal (s ! 8) * 10 + digitVal (s ! 9)"
  define hour where "hour = digitVal (s ! 11) * 10 + digitVal (s ! 12)"
  define minute where "minute = digitVal (s ! 14) * 10 + digitVal (s ! 15)"
  define sec where "sec = digitVal (s ! 17) * 10 + digitVal (s ! 18)"
  let ?ok = "1 \<le> month \<and> month \<le> 12 \<and> hour < 24 \<and> minute < 60 \<and> sec < 60
             \<and> 1 \<le> day \<and> day \<le> daysIn month year"
  have "parseLayout s
        = parseLayout [s ! 0, s ! 1, s ! 2, s ! 3, CHR ''-'', s ! 5, s ! 6, CHR ''-'', s ! 8,
            s ! 9, CHR '' '', s ! 11, s ! 12, CHR '':'', s ! 14, s ! 15, CHR '':'', s ! 17,
            s ! 18]"
    by (rule arg_cong [OF l(1)])
  also have "\<dots> = (if ?ok then Some (year, month, day, hour, minute, sec, 0) else None)"
    by (rule parse_shaped [OF l(2-15) year_def month_def day_def hour_def minute_def sec_def])
  finally have p: "(if ?ok then Some (year, month, day, hour, minute, sec, 0) else None) = Some r"
    using assms(2) by simp
  have ok: ?ok
    using p by (cases ?ok) simp_all
  then have r: "r = (year, month, day, hour, minute, sec, 0)"
    using p by simp
  have nn: "0 \<le> hour" "0 \<le> minute" "0 \<le> sec"
    unfolding hour_def minute_def sec_def
    using digitVal_bounds [OF l(10)] digitVal_bounds [OF l(11)] digitVal_bounds [OF l(12)]
      digitVal_bounds [OF l(13)] digitVal_bounds [OF l(14)] digitVal_bounds [OF l(15)]
    by simp_all
  have "appendInt year 4 @ ''-'' @ appendInt month 2 @ ''-'' @ appendInt day 2 @ '' ''
        @ appendInt hour 2 @ '':'' @ appendInt minute 2 @ '':'' @ appendInt sec 2
        = [s ! 0, s ! 1, s ! 2, s ! 3, CHR ''-'', s ! 5, s ! 6, CHR ''-'', s ! 8,
            s ! 9, CHR '' '', s ! 11, s ! 12, CHR '':'', s ! 14, s ! 15, CHR '':'', s ! 17,
            s ! 18]"
    unfolding year_def month_def day_def hour_def minute_def sec_def
      appendInt_four [OF l(2-5)] appendInt_two [OF l(6,7)] appendInt_two [OF l(8,9)]
      appendInt_two [OF l(10,11)] appendInt_two [OF l(12,13)] appendInt_two [OF l(14,15)]
    by simp
  then have str: "appendInt year 4 @ ''-'' @ appendInt month 2 @ ''-'' @ appendInt day 2 @ '' ''
        @ appendInt hour 2 @ '':'' @ appendInt minute 2 @ '':'' @ appendInt sec 2 = s"
    using l(1) by (rule trans [OF _ sym])
  show thesis
  proof (rule that [OF r _ _ _ _ _ _ _ _ _ _ str])
    show "1 \<le> month" "month \<le> 12" "1 \<le> day" "day \<le> daysIn month year"
      "hour < 24" "minute < 60" "sec < 60"
      using ok by simp_all
  qed (rule nn)+
qed

lemma shaped_Trim:
  assumes "layoutShaped s"
  shows "Trim (quoted s) (CHR 0x22) = s"
proof -
  note l = shaped_nth [OF assms]
  have len: "length s = 19" using assms by (simp add: layoutShaped_def)
  have n: "s \<noteq> []" using len by auto
  have h: "hd s = s ! 0" using n by (simp add: hd_conv_nth)
  have t: "last s = s ! 18" using n len by (simp add: last_conv_nth)
  show ?thesis
    using digit_not_layout [OF l(2)] digit_not_layout [OF l(15)]
    by (intro Trim_quoted) (simp_all add: n h t)
qed

lemma shaped_round_trip:
  assumes "layoutShaped s" and "ParseInLocation s l = Inr t"
  obtains w where "t = \<lparr>unixSec = zoned l w, nsec = 0, loc = l\<rparr>"
    and "ParseInLocation s utcLoc = Inr \<lparr>unixSec = w, nsec = 0, loc = utcLoc\<rparr>"
    and "zoned l w + fst (l (zoned l w)) = w \<longrightarrow> Format t = s"
proof -
  obtain r where r: "parseLayout s = Some r"
    using assms(2) by (cases "parseLayout s") (simp_all add: ParseInLocation_def)
  obtain year month day hour minute sec
    where f: "r = (year, month, day, hour, minute, sec, 0)"
      and b: "1 \<le> month" "month \<le> 12" "1 \<le> day" "day \<le> daysIn month year"
        "0 \<le> hour" "hour < 24" "0 \<le> minute" "minute < 60" "0 \<le> sec" "sec < 60"
      and str: "appendInt year 4 @ ''-'' @ appendInt month 2 @ ''-'' @ appendInt day 2 @ '' ''
         @ appendInt hour 2 @ '':'' @ appendInt minute 2 @ '':'' @ appendInt sec 2 = s"
    using assms(1) r by (rule shaped_parse)
  let ?w = "civil year month day hour minute sec"
  have d: "Date year month day hour minute sec 0 k
           = \<lparr>unixSec = zoned k ?w, nsec = 0, loc = k\<rparr>" for k
    using b by (intro Date_fields) simp_all
  have t: "t = \<lparr>unixSec = zoned l ?w, nsec = 0, loc = l\<rparr>"
    using assms(2) by (simp add: ParseInLocation_def r f d)
  have u: "ParseInLocation s utcLoc = Inr \<lparr>unixSec = ?w, nsec = 0, loc = utcLoc\<rparr>"
    by (simp add: ParseInLocation_def r f d zoned_utc)
  have fm: "Format t = s" if "zoned l ?w + fst (l (zoned l ?w)) = ?w"
    unfolding t
    using Format_civil [where l = l and u = "zoned l ?w" and n = 0, OF b that] str by simp
  have fm': "zoned l ?w + fst (l (zoned l ?w)) = ?w \<longrightarrow> Format t = s"
    using fm by (rule impI)
  show thesis
    by (rule that [OF t u fm'])
qed

text \<open>Examples.\<close>

lemma parse_examples:
  "parseLayout ''2023-06-15 1:00:00'' = Some (2023, 6, 15, 1, 0, 0, 0)"
  "parseLayout ''2023-06-15 12:00:00.5'' = Some (2023, 6, 15, 12, 0, 0, 500000000)"
  "parseLayout ''2023-03-26 01:30:00'' = Some (2023, 3, 26, 1, 30, 0, 0)"
  by code_simp+

lemma civil_examples:
  "civil 2023 6 15 1 0 0 = 1686790800"
  "civil 2023 3 26 1 30 0 = 1679794200"
  by code_simp+

lemma format_examples:
  "absDate (1686790800 + unixToInternal) = (2023, 6, 15)"
  "absClock (1686790800 + unixToInternal) = (1, 0, 0)"
  "absDate (1679797800 + unixToInternal) = (2023, 3, 26)"
  "absClock (1679797800 + unixToInternal) = (2, 30, 0)"
  by code_simp+

lemma appendInt_more:
  "appendInt 3 2 = ''03''" "appendInt 26 2 = ''26''" "appendInt 2 2 = ''02''"
  "appendInt 30 2 = ''30''"
  by code_simp+

lemma Format_at:
  assumes "fst (l u) = offset"
    and "absDate (u + offset + unixToInternal) = (year, month, day)"
    and "absClock (u + offset + unixToInternal) = (hour, minute, sec)"
  shows "Format \<lparr>unixSec = u, nsec = n, loc = l\<rparr>
         = appendInt year 4 @ ''-'' @ appendInt month 2 @ ''-'' @ appendInt day 2 @ '' ''
           @ appendInt hour 2 @ '':'' @ appendInt minute 2 @ '':'' @ appendInt sec 2"
  using assms by (simp add: Format_offset [of l u offset n])

lemma parsed_examples:
  "ParseInLocation ''2023-06-15 1:00:00'' l
   = Inr \<lparr>unixSec = zoned l 1686790800, nsec = 0, loc = l\<rparr>"
  "ParseInLocation ''2023-06-15 12:00:00.5'' l
   = Inr \<lparr>unixSec = zoned l 1686830400, nsec = 500000000, loc = l\<rparr>"
  "ParseInLocation ''2023-03-26 01:30:00'' l
   = Inr \<lparr>unixSec = zoned l 1679794200, nsec = 0, loc = l\<rparr>"
  by (simp_all add: ParseInLocation_def parse_examples Date_fields civil_examples civil_june)

lemma zoned_examples:
  "zoned london2023 1686790800 = 1686787200"
  "zoned london2023 1686830400 = 1686826800"
  "zoned london2023 1679794200 = 1679794200"
  by (simp_all add: zoned_def london2023_def)

lemma formatted_examples:
  "Format \<lparr>unixSec = 1686787200, nsec = 0, loc = london2023\<rparr> = ''2023-06-15 01:00:00''"
  "Format \<lparr>unixSec = 1686826800, nsec = 500000000, loc = london2023\<rparr>
   = ''2023-06-15 12:00:00''"
  "Format \<lparr>unixSec = 1679794200, nsec = 0, loc = london2023\<rparr> = ''2023-03-26 02:30:00''"
  "Format \<lparr>unixSec = 1686790800, nsec = 0, loc = utcLoc\<rparr> = ''2023-06-15 01:00:00''"
proof -
  show "Format \<lparr>unixSec = 1686787200, nsec = 0, loc = london2023\<rparr> = ''2023-06-15 01:00:00''"
    using format_examples(1,2)
    by (subst Format_at [where offset = 3600 and year = 2023 and month = 6 and day = 15
          and hour = 1 and minute = 0 and sec = 0])
       (simp_all add: london2023_def appendInt_examples)
  show "Format \<lparr>unixSec = 1686826800, nsec = 500000000, loc = london2023\<rparr>
        = ''2023-06-15 12:00:00''"
    using format_june
    by (subst Format_at [where offset = 3600 and year = 2023 and month = 6 and day = 15
          and hour = 12 and minute = 0 and sec = 0])
       (simp_all add: london2023_def appendInt_examples)
  show "Format \<lparr>unixSec = 1679794200, nsec = 0, loc = london2023\<rparr> = ''2023-03-26 02:30:00''"
    using format_examples(3,4)
    by (subst Format_at [where offset = 3600 and year = 2023 and month = 3 and day = 26
          and hour = 2 and minute = 30 and sec = 0])
       (simp_all add: london2023_def appendInt_examples appendInt_more)
  show "Format \<lparr>unixSec = 1686790800, nsec = 0, loc = utcLoc\<rparr> = ''2023-06-15 01:00:00''"
    using format_examples(1,2)
    by (subst Format_at [where offset = 0 and year = 2023 and month = 6 and day = 15
          and hour = 1 and minute = 0 and sec = 0])
       (simp_all add: utcLoc_def appendInt_examples)
qed

lemma Trim_examples:
  "Trim (quoted ''2023-06-15 1:00:00'') (CHR 0x22) = ''2023-06-15 1:00:00''"
  "Trim (quoted ''2023-06-15 12:00:00.5'') (CHR 0x22) = ''2023-06-15 12:00:00.5''"
  "Trim (quoted ''2023-03-26 01:30:00'') (CHR 0x22) = ''2023-03-26 01:30:00''"
  by (rule Trim_quoted; simp)+

lemma june_in_utc:
  "ParseInLocation ''2023-06-15 12:00:00'' utcLoc
   = Inr \<lparr>unixSec = 1686830400, nsec = 0, loc = utcLoc\<rparr>"
  by (simp add: ParseInLocation_def parse_june Date_fields civil_june zoned_utc)

lemma june_shaped: "layoutShaped ''2023-06-15 12:00:00''"
  by (simp add: layoutShaped_def isDigitChar_def)

text \<open>
  Claim C8, as stated, fails. The parser accepts an hour of one digit and a fraction of a
  second after the seconds, which the layout does not write back; and a civil time that
  a change to summer time skips is parsed to an instant that the zone shows an hour
  later.
\<close>

theorem round_trip_fails:
  "UnmarshalJSON londonZones (quoted ''2023-06-15 1:00:00'')
     = Inr \<lparr>unixSec = 1686787200, nsec = 0, loc = london2023\<rparr>
   \<and> Format \<lparr>unixSec = 1686787200, nsec = 0, loc = london2023\<rparr> = ''2023-06-15 01:00:00''
   \<and> UnmarshalJSON londonZones (quoted ''2023-06-15 12:00:00.5'')
     = Inr \<lparr>unixSec = 1686826800, nsec = 500000000, loc = london2023\<rparr>
   \<and> Format \<lparr>unixSec = 1686826800, nsec = 500000000, loc = london2023\<rparr>
     = ''2023-06-15 12:00:00''
   \<and> UnmarshalJSON londonZones (quoted ''2023-03-26 01:30:00'')
     = Inr \<lparr>unixSec = 1679794200, nsec = 0, loc = london2023\<rparr>
   \<and> Format \<lparr>unixSec = 1679794200, nsec = 0, loc = london2023\<rparr> = ''2023-03-26 02:30:00''
   \<and> UnmarshalJSON noZones (quoted ''2023-06-15 1:00:00'')
     = Inr \<lparr>unixSec = 1686790800, nsec = 0, loc = utcLoc\<rparr>
   \<and> Format \<lparr>unixSec = 1686790800, nsec = 0, loc = utcLoc\<rparr> = ''2023-06-15 01:00:00''"
proof -
  have z: "zoneinfo londonZones ''Europe/London'' = Some london2023"
    by (simp add: londonZones_def)
  have n: "zoneinfo noZones ''Europe/London'' = None" "Local noZones = utcLoc"
    by (simp_all add: noZones_def)
  have 1: "UnmarshalJSON londonZones (quoted ''2023-06-15 1:00:00'')
           = Inr \<lparr>unixSec = 1686787200, nsec = 0, loc = london2023\<rparr>"
    by (simp add: UnmarshalJSON_loaded [OF z] Trim_examples parsed_examples zoned_examples)
  have 2: "UnmarshalJSON londonZones (quoted ''2023-06-15 12:00:00.5'')
           = Inr \<lparr>unixSec = 1686826800, nsec = 500000000, loc = london2023\<rparr>"
    by (simp add: UnmarshalJSON_loaded [OF z] Trim_examples parsed_examples zoned_examples)
  have 3: "UnmarshalJSON londonZones (quoted ''2023-03-26 01:30:00'')
           = Inr \<lparr>unixSec = 1679794200, nsec = 0, loc = london2023\<rparr>"
    by (simp add: UnmarshalJSON_loaded [OF z] Trim_examples parsed_examples zoned_examples)
  have 4: "UnmarshalJSON noZones (quoted ''2023-06-15 1:00:00'')
           = Inr \<lparr>unixSec = 1686790800, nsec = 0, loc = utcLoc\<rparr>"
    by (simp add: UnmarshalJSON_fallback [OF n(1)] n(2) Trim_examples parsed_examples zoned_utc)
  show ?thesis
    using 1 2 3 4 formatted_examples by (simp only: simp_thms)
qed

text \<open>
  Claim C8, amended. For every string written exactly as the layout is (nineteen
  characters, \<open>YYYY-MM-DD HH:MM:SS\<close> with two digits for the hour and nothing after the
  seconds) that \<open>UnmarshalJSON\<close> accepts, formatting the time parsed with the same layout
  gives the string back, provided the zone shows the civil time written at the instant
  parsed: the instant plus the offset of the zone there is the civil time, which is
  what the same string parses to in UTC. With the United Kingdom's rules for 2023 this
  holds for every civil time from 30 October 2022, 01:00, to 29 October 2023, 01:00, but
  those from 01:00 to 02:00 on 26 March 2023, which the change to summer time skips.
\<close>

theorem round_trip_of_layout_shaped:
  "(layoutShaped s \<and> UnmarshalJSON z (quoted s) = Inr t
      \<and> ParseInLocation s utcLoc = Inr t0
      \<and> unixSec t + fst (loc t (unixSec t)) = unixSec t0
    \<longrightarrow> Format t = s)
   \<and> (layoutShaped s \<and> UnmarshalJSON z (quoted s) = Inr t
      \<and> ParseInLocation s utcLoc = Inr t0
      \<and> zoneinfo z ''Europe/London'' = Some l \<and> britishTime2023 l
      \<and> (1667091600 \<le> unixSec t0 \<and> unixSec t0 < 1679792400
          \<or> 1679796000 \<le> unixSec t0 \<and> unixSec t0 < 1698541200)
    \<longrightarrow> Format t = s)"
proof (intro conjI impI; elim conjE)
  assume sh: "layoutShaped s" and u: "UnmarshalJSON z (quoted s) = Inr t"
    and p0: "ParseInLocation s utcLoc = Inr t0"
    and h: "unixSec t + fst (loc t (unixSec t)) = unixSec t0"
  define k where
    "k = (case LoadLocation z ''Europe/London'' of None \<Rightarrow> Local z | Some l \<Rightarrow> l)"
  have p: "ParseInLocation s k = Inr t"
    using u by (simp add: UnmarshalJSON_def shaped_Trim [OF sh] k_def)
  obtain w where t: "t = \<lparr>unixSec = zoned k w, nsec = 0, loc = k\<rparr>"
    and t0: "ParseInLocation s utcLoc = Inr \<lparr>unixSec = w, nsec = 0, loc = utcLoc\<rparr>"
    and fm: "zoned k w + fst (k (zoned k w)) = w \<longrightarrow> Format t = s"
    by (rule shaped_round_trip [OF sh p])
  have "t0 = \<lparr>unixSec = w, nsec = 0, loc = utcLoc\<rparr>" using p0 t0 by simp
  then have "unixSec t0 = w" by simp
  then show "Format t = s" using h fm by (simp add: t)
next
  assume sh: "layoutShaped s" and u: "UnmarshalJSON z (quoted s) = Inr t"
    and p0: "ParseInLocation s utcLoc = Inr t0"
    and z: "zoneinfo z ''Europe/London'' = Some l" and l: "britishTime2023 l"
    and r: "1667091600 \<le> unixSec t0 \<and> unixSec t0 < 1679792400
            \<or> 1679796000 \<le> unixSec t0 \<and> unixSec t0 < 1698541200"
  have p: "ParseInLocation s l = Inr t"
    using u by (simp add: UnmarshalJSON_loaded [OF z] shaped_Trim [OF sh])
  obtain w where t: "t = \<lparr>unixSec = zoned l w, nsec = 0, loc = l\<rparr>"
    and t0: "ParseInLocation s utcLoc = Inr \<lparr>unixSec = w, nsec = 0, loc = utcLoc\<rparr>"
    and fm: "zoned l w + fst (l (zoned l w)) = w \<longrightarrow> Format t = s"
    by (rule shaped_round_trip [OF sh p])
  have "t0 = \<lparr>unixSec = w, nsec = 0, loc = utcLoc\<rparr>" using p0 t0 by simp
  then have w: "unixSec t0 = w" by simp
  from r show "Format t = s"
  proof
    assume a: "1667091600 \<le> unixSec t0 \<and> unixSec t0 < 1679792400"
    then have "zoned l w = w" using zoned_winter2023 [OF l, of w] w by simp
    moreover have "l w = (0, 1667091600, 1679792400)"
      using a l w by (simp add: britishTime2023_def)
    ultimately show ?thesis using fm by simp
  next
    assume a: "1679796000 \<le> unixSec t0 \<and> unixSec t0 < 1698541200"
    then have "zoned l w = w - 3600" using zoned_summer2023 [OF l, of w] w by simp
    moreover have "l (w - 3600) = (3600, 1679792400, 1698541200)"
      using a l w by (simp add: britishTime2023_def)
    ultimately show ?thesis using fm by simp
  qed
qed

theorem round_trip_of_layout_shaped_witness:
  "layoutShaped ''2023-06-15 12:00:00''
   \<and> UnmarshalJSON londonZones (quoted ''2023-06-15 12:00:00'')
       = Inr \<lparr>unixSec = 1686826800, nsec = 0, loc = london2023\<rparr>
   \<and> ParseInLocation ''2023-06-15 12:00:00'' utcLoc
       = Inr \<lparr>unixSec = 1686830400, nsec = 0, loc = utcLoc\<rparr>
   \<and> 1686826800 + fst (london2023 1686826800) = 1686830400
   \<and> zoneinfo londonZones ''Europe/London'' = Some london2023
   \<and> britishTime2023 london2023
   \<and> Format \<lparr>unixSec = 1686826800, nsec = 0, loc = london2023\<rparr> = ''2023-06-15 12:00:00''"
proof -
  have z: "zoneinfo londonZones ''Europe/London'' = Some london2023"
    by (simp add: londonZones_def)
  have u: "UnmarshalJSON londonZones (quoted ''2023-06-15 12:00:00'')
           = Inr \<lparr>unixSec = 1686826800, nsec = 0, loc = london2023\<rparr>"
    by (simp only: UnmarshalJSON_loaded [OF z] Trim_june
        june_in_london(1) [OF london2023_british])
  have o: "1686826800 + fst (london2023 1686826800) = 1686830400"
    by (simp add: london2023_def)
  note w = round_trip_of_layout_shaped [of "''2023-06-15 12:00:00''" londonZones
      "\<lparr>unixSec = 1686826800, nsec = 0, loc = london2023\<rparr>"
      "\<lparr>unixSec = 1686830400, nsec = 0, loc = utcLoc\<rparr>" london2023]
  show ?thesis
    using w june_shaped u june_in_utc o z london2023_british by simp
qed

end
